theory Spec2Isabelle
  imports Complex_Main
begin

section \<open>Data model\<close>

text \<open>
  Link objects live on the Python heap and are compared by identity: a link is a heap
  address (\<open>link_id\<close>), its attributes are read through the heap. The attributes are
  those that \<^verbatim>\<open>ERobot.py\<close> reads; the classes \<^verbatim>\<open>Link\<close>, \<^verbatim>\<open>Gripper\<close> and
  \<^verbatim>\<open>Robot\<close> themselves are outside the source at hand.
\<close>

type_synonym link_id = nat

record link =
  name :: string
  isjoint :: bool
  jindex :: "nat option"
  parent :: "link_id option"

text \<open>A rigid transform (\<^verbatim>\<open>SE3\<close>) is its 4x4 homogeneous matrix; \<^verbatim>\<open>SE3()\<close> is the identity.\<close>

type_synonym SE3 = "real list list"

definition SE3_eye :: SE3 where
  "SE3_eye = [[1, 0, 0, 0], [0, 1, 0, 0], [0, 0, 1, 0], [0, 0, 0, 1]]"

record gripper =
  gid :: nat
  gname :: string
  glinks :: "link_id list"
  gtool :: SE3

text \<open>What a caller may pass as \<^verbatim>\<open>end\<close> or \<^verbatim>\<open>start\<close>: a Link, a name or a Gripper
  (the latter by its object identity \<open>gid\<close>); \<^verbatim>\<open>None\<close> is \<open>None\<close> of the option type.\<close>

datatype designator = DLink link_id | DName string | DGripper nat

datatype error = ValueError string | IndexError | TypeError string | ZeroDivisionError

type_synonym path_result = "link_id list \<times> nat \<times> SE3"

text \<open>
  The robot object. \<open>links\<close>, \<open>grippers\<close>, \<open>ee_links\<close>, \<open>base_link\<close> are the properties of
  the \<^verbatim>\<open>Robot\<close> superclass that the methods read; \<open>getlink\<close> is its method
  \<^verbatim>\<open>_getlink\<close>, taken as it is given. \<open>path_cache\<close> is the two-level dictionary
  \<^verbatim>\<open>_path_cache[start.name][end.name]\<close>; \<open>cache_end\<close>, \<open>cache_end_tool\<close> and
  \<open>cache_start\<close> are the attributes that \<^verbatim>\<open>_get_limit_links\<close> assigns (\<open>None\<close> while
  unassigned); \<open>stdout\<close> collects what is printed.
\<close>

record 'z robot =
  heap :: "link_id \<Rightarrow> 'z link_scheme"
  links :: "link_id list"
  grippers :: "gripper list"
  ee_links :: "link_id list"
  base_link :: link_id
  getlink :: "designator \<Rightarrow> error + link_id"
  path_cache :: "string \<rightharpoonup> (string \<rightharpoonup> path_result)"
  cache_end :: "designator option option"
  cache_end_tool :: "SE3 option option"
  cache_start :: "designator option option"
  stdout :: "string list"

section \<open>Path resolution: \<^verbatim>\<open>_get_limit_links\<close> and \<^verbatim>\<open>get_path\<close>\<close>

text \<open>\<^verbatim>\<open>end == gripper or end == gripper.name\<close>\<close>

definition end_is_gripper :: "designator \<Rightarrow> gripper \<Rightarrow> bool" where
  "end_is_gripper d g = (d = DGripper (gid g) \<or> d = DName (gname g))"

text \<open>The first half of \<^verbatim>\<open>_get_limit_links\<close>: the end link, the tool and the updated robot.\<close>

definition limit_end ::
  "'z robot \<Rightarrow> designator option \<Rightarrow> (error + (link_id \<times> SE3 option)) \<times> 'z robot" where
  "limit_end r end' =
    (case end' of
       None \<Rightarrow>
         (case
            (if length (grippers r) > 1 then
               (case glinks (grippers r ! 0) of
                  [] \<Rightarrow> (Inl IndexError, r)
                | l # _ \<Rightarrow>
                    (Inr (l, Some (gtool (grippers r ! 0))),
                     r\<lparr>stdout := stdout r @
                        [''More than one gripper present, using robot.grippers[0]'']\<rparr>))
             else if length (grippers r) = 1 then
               (case glinks (grippers r ! 0) of
                  [] \<Rightarrow> (Inl IndexError, r)
                | l # _ \<Rightarrow> (Inr (l, Some (gtool (grippers r ! 0))), r))
             else if length (ee_links r) > 1 then
               (Inr (ee_links r ! 0, None),
                r\<lparr>stdout := stdout r @
                   [''More than one end-effector present, using robot.ee_links[0]'']\<rparr>)
             else
               (case ee_links r of
                  [] \<Rightarrow> (Inl IndexError, r)
                | l # _ \<Rightarrow> (Inr (l, None), r)))
          of
            (Inl e, r1) \<Rightarrow> (Inl e, r1)
          | (Inr (l, tool), r1) \<Rightarrow>
              (Inr (l, tool), r1\<lparr>cache_end := Some end', cache_end_tool := Some tool\<rparr>))
     | Some d \<Rightarrow>
         (let tool = fold (\<lambda>g t. if end_is_gripper d g then Some (gtool g) else t)
                       (grippers r) None
          in case getlink r d of
               Inl e \<Rightarrow> (Inl e, r)
             | Inr l \<Rightarrow> (Inr (l, tool), r)))"

text \<open>The second half: the start link.\<close>

definition limit_start ::
  "'z robot \<Rightarrow> designator option \<Rightarrow> (error + link_id) \<times> 'z robot" where
  "limit_start r start =
    (case start of
       None \<Rightarrow> (Inr (base_link r), r\<lparr>cache_start := Some start\<rparr>)
     | Some d \<Rightarrow>
         (case getlink r d of
            Inl e \<Rightarrow> (Inl e, r)
          | Inr l \<Rightarrow> (Inr l, r)))"

definition get_limit_links ::
  "'z robot \<Rightarrow> designator option \<Rightarrow> designator option
     \<Rightarrow> (error + (link_id \<times> link_id \<times> SE3 option)) \<times> 'z robot" where
  "get_limit_links r end' start =
    (case limit_end r end' of
       (Inl e, r1) \<Rightarrow> (Inl e, r1)
     | (Inr (end_ret, tool), r1) \<Rightarrow>
         (case limit_start r1 start of
            (Inl e, r2) \<Rightarrow> (Inl e, r2)
          | (Inr start_ret, r2) \<Rightarrow> (Inr (end_ret, start_ret, tool), r2)))"

text \<open>
  The \<^verbatim>\<open>while link != start\<close> loop of \<^verbatim>\<open>get_path\<close>. It follows parent references and
  does not return on a cyclic parent graph, hence the option monad: \<open>None\<close> is
  non-termination. \<open>path\<close> is in visiting order (end first), \<open>n\<close> counts joints.
\<close>

definition no_path_error :: "string \<Rightarrow> string \<Rightarrow> error" where
  "no_path_error sname ename = ValueError (''cannot find path from '' @ sname @ '' to '' @ ename)"

partial_function (option) walk ::
  "(link_id \<Rightarrow> 'z link_scheme) \<Rightarrow> link_id \<Rightarrow> link_id \<Rightarrow> link_id \<Rightarrow> link_id list \<Rightarrow> nat
     \<Rightarrow> (error + (link_id list \<times> nat)) option" where
  "walk h start end' link path n =
    (if link \<noteq> start then
       (case parent (h link) of
          None \<Rightarrow> Some (Inl (no_path_error (name (h start)) (name (h end'))))
        | Some p \<Rightarrow> walk h start end' p (path @ [p]) (if isjoint (h p) then n + 1 else n))
     else Some (Inr (path, n)))"

text \<open>\<^verbatim>\<open>self._path_cache[start.name][end.name]\<close>, \<open>None\<close> where Python raises \<^verbatim>\<open>KeyError\<close>.\<close>

definition cache_lookup :: "'z robot \<Rightarrow> string \<Rightarrow> string \<Rightarrow> path_result option" where
  "cache_lookup r sname ename =
    (case path_cache r sname of None \<Rightarrow> None | Some inner \<Rightarrow> inner ename)"

text \<open>\<^verbatim>\<open>self._path_cache[start.name][end.name] = v\<close>; the inner dictionary exists by then.\<close>

definition cache_store :: "'z robot \<Rightarrow> string \<Rightarrow> string \<Rightarrow> path_result \<Rightarrow> 'z robot" where
  "cache_store r sname ename v =
    r\<lparr>path_cache := (path_cache r)
        (sname \<mapsto> (case path_cache r sname of None \<Rightarrow> Map.empty | Some inner \<Rightarrow> inner)
                    (ename \<mapsto> v))\<rparr>"

text \<open>
  The body of \<^verbatim>\<open>get_path\<close> after a cache miss: make sure the inner dictionary for
  \<^verbatim>\<open>start.name\<close> exists, walk, reverse, default the tool, store and return. An exception
  leaves the robot as it is at that point (with the new, empty inner dictionary).
\<close>

definition ensure_inner :: "'z robot \<Rightarrow> string \<Rightarrow> 'z robot" where
  "ensure_inner r sname =
    (if path_cache r sname = None
     then r\<lparr>path_cache := (path_cache r)(sname \<mapsto> Map.empty)\<rparr>
     else r)"

definition tool_or_eye :: "SE3 option \<Rightarrow> SE3" where
  "tool_or_eye tool = (case tool of None \<Rightarrow> SE3_eye | Some t \<Rightarrow> t)"

definition get_path_walk ::
  "'z robot \<Rightarrow> link_id \<Rightarrow> link_id \<Rightarrow> SE3 option \<Rightarrow> ((error + path_result) \<times> 'z robot) option" where
  "get_path_walk r end_ret start_ret tool =
    (case walk (heap r) start_ret end_ret end_ret [end_ret]
            (if isjoint (heap r end_ret) then 1 else 0) of
       None \<Rightarrow> None
     | Some (Inl e) \<Rightarrow> Some (Inl e, ensure_inner r (name (heap r start_ret)))
     | Some (Inr (path, n)) \<Rightarrow>
         Some (Inr (rev path, n, tool_or_eye tool),
               cache_store (ensure_inner r (name (heap r start_ret)))
                 (name (heap r start_ret)) (name (heap r end_ret))
                 (rev path, n, tool_or_eye tool)))"

definition get_path ::
  "'z robot \<Rightarrow> designator option \<Rightarrow> designator option
     \<Rightarrow> ((error + path_result) \<times> 'z robot) option" where
  "get_path r end' start =
    (case get_limit_links r end' start of
       (Inl e, r1) \<Rightarrow> Some (Inl e, r1)
     | (Inr (end_ret, start_ret, tool), r1) \<Rightarrow>
         (case cache_lookup r1 (name (heap r1 start_ret)) (name (heap r1 end_ret)) of
            Some v \<Rightarrow> Some (Inr v, r1)
          | None \<Rightarrow> get_path_walk r1 end_ret start_ret tool))"

section \<open>Ancestor chains and the robot invariant\<close>

text \<open>
  \<open>chain h start l xs\<close>: following parent references from \<open>l\<close> reaches \<open>start\<close>, and
  \<open>xs\<close> lists the links met on the way, \<open>l\<close> first and \<open>start\<close> last (so \<open>start\<close> is
  an ancestor of \<open>l\<close>, or \<open>l\<close> itself). \<open>no_path h start l\<close>: following parent references
  from \<open>l\<close> reaches a link without parent before it reaches \<open>start\<close>.
\<close>

inductive chain :: "(link_id \<Rightarrow> 'z link_scheme) \<Rightarrow> link_id \<Rightarrow> link_id \<Rightarrow> link_id list \<Rightarrow> bool"
  for h :: "link_id \<Rightarrow> 'z link_scheme" and start :: link_id where
  chain_here: "chain h start start [start]"
| chain_up: "l \<noteq> start \<Longrightarrow> parent (h l) = Some p \<Longrightarrow> chain h start p xs
              \<Longrightarrow> chain h start l (l # xs)"

inductive no_path :: "(link_id \<Rightarrow> 'z link_scheme) \<Rightarrow> link_id \<Rightarrow> link_id \<Rightarrow> bool"
  for h :: "link_id \<Rightarrow> 'z link_scheme" and start :: link_id where
  no_path_root: "l \<noteq> start \<Longrightarrow> parent (h l) = None \<Longrightarrow> no_path h start l"
| no_path_up: "l \<noteq> start \<Longrightarrow> parent (h l) = Some p \<Longrightarrow> no_path h start p
              \<Longrightarrow> no_path h start l"

definition joint_count :: "(link_id \<Rightarrow> 'z link_scheme) \<Rightarrow> link_id list \<Rightarrow> nat" where
  "joint_count h xs = length (filter (\<lambda>l. isjoint (h l)) xs)"

text \<open>All links of a robot: those of the main sequence and those held by its grippers.\<close>

definition all_links :: "'z robot \<Rightarrow> link_id set" where
  "all_links r = set (links r) \<union> (\<Union>g \<in> set (grippers r). set (glinks g))"

text \<open>
  Every cached tuple is what a walk between the two links of these names gives:
  the reversed chain and its number of joints.
\<close>

definition cache_ok :: "'z robot \<Rightarrow> bool" where
  "cache_ok r =
    (\<forall>s \<in> all_links r. \<forall>e \<in> all_links r. \<forall>p n t.
       cache_lookup r (name (heap r s)) (name (heap r e)) = Some (p, n, t) \<longrightarrow>
       (\<exists>xs. chain (heap r) s e xs \<and> p = rev xs \<and> n = joint_count (heap r) xs))"

text \<open>
  The invariant of a built tree that path resolution relies on: link names are unique,
  \<^verbatim>\<open>_getlink\<close> and the default end points only yield links of the robot, and the cache
  is sound.
\<close>

definition wf_robot :: "'z robot \<Rightarrow> bool" where
  "wf_robot r =
    (inj_on (\<lambda>l. name (heap r l)) (all_links r) \<and>
     (\<forall>d l. getlink r d = Inr l \<longrightarrow> l \<in> all_links r) \<and>
     base_link r \<in> all_links r \<and>
     set (ee_links r) \<subseteq> all_links r \<and>
     cache_ok r)"

text \<open>What a finished walk establishes, as one predicate (the invariant of the loop).\<close>

definition walk_post ::
  "(link_id \<Rightarrow> 'z link_scheme) \<Rightarrow> link_id \<Rightarrow> link_id \<Rightarrow> link_id \<Rightarrow> link_id list \<Rightarrow> nat
     \<Rightarrow> error + (link_id list \<times> nat) \<Rightarrow> bool" where
  "walk_post h start e l path n y =
   (case y of
      Inl err \<Rightarrow> no_path h start l \<and> err = no_path_error (name (h start)) (name (h e))
    | Inr (p, m) \<Rightarrow>
        (\<exists>xs. chain h start l xs \<and> p = path @ tl xs \<and> m = n + joint_count h (tl xs)))"


section \<open>Building robots for the examples\<close>

text \<open>
  Modelled from the spec: \<^verbatim>\<open>Robot._getlink\<close>, which is not part of the source at hand.
  A designator is a Link reference (validated as belonging to the robot), a name (looked up
  among the robot's links) or a Gripper (its first link). It is used only to build the
  concrete robots below; every general statement takes \<open>getlink\<close> as the robot gives it.
\<close>

definition getlink_spec ::
  "(link_id \<Rightarrow> 'z link_scheme) \<Rightarrow> link_id list \<Rightarrow> gripper list \<Rightarrow> designator
     \<Rightarrow> error + link_id" where
  "getlink_spec h ls gs d =
    (case d of
       DLink l \<Rightarrow> (if l \<in> set ls then Inr l else Inl (ValueError ''link not in robot links''))
     | DName s \<Rightarrow>
         (case filter (\<lambda>l. name (h l) = s) ls of
            [] \<Rightarrow> Inl (ValueError (''no link named '' @ s))
          | l # _ \<Rightarrow> Inr l)
     | DGripper i \<Rightarrow>
         (case filter (\<lambda>g. gid g = i) gs of
            [] \<Rightarrow> Inl (ValueError ''Gripper not in robot grippers'')
          | g # _ \<Rightarrow>
              (case glinks g of
                 [] \<Rightarrow> Inl IndexError
               | l # _ \<Rightarrow> if l \<in> set ls then Inr l else Inl (ValueError ''link not in robot links''))))"

text \<open>A robot as it is after construction: empty path cache, nothing printed yet.\<close>

definition fresh_robot ::
  "(link_id \<Rightarrow> 'z link_scheme) \<Rightarrow> link_id list \<Rightarrow> gripper list \<Rightarrow> link_id list \<Rightarrow> link_id
     \<Rightarrow> 'z robot" where
  "fresh_robot h ls gs ees b =
    \<lparr>heap = h, links = ls, grippers = gs, ee_links = ees, base_link = b,
     getlink = getlink_spec h (ls @ concat (map glinks gs)) gs,
     path_cache = Map.empty, cache_end = None, cache_end_tool = None, cache_start = None,
     stdout = []\<rparr>"

text \<open>The four-link chain of the class documentation: \<^verbatim>\<open>link1\<close>, \<^verbatim>\<open>link2\<close>, \<^verbatim>\<open>link3\<close>, \<^verbatim>\<open>ee\<close>
  at the addresses 0 to 3, each the parent of the next; the first three are joints.\<close>

definition chain4_heap :: "link_id \<Rightarrow> link" where
  "chain4_heap i =
    (if i = 0 then \<lparr>name = ''link1'', isjoint = True, jindex = Some 0, parent = None\<rparr>
     else if i = 1 then \<lparr>name = ''link2'', isjoint = True, jindex = Some 1, parent = Some 0\<rparr>
     else if i = 2 then \<lparr>name = ''link3'', isjoint = True, jindex = Some 2, parent = Some 1\<rparr>
     else \<lparr>name = ''ee'', isjoint = False, jindex = None, parent = Some 2\<rparr>)"

definition chain4 :: "unit robot" where
  "chain4 = fresh_robot chain4_heap [0, 1, 2, 3] [] [3] 0"

text \<open>A two-branch tree: \<^verbatim>\<open>link1\<close> (0) with the children \<^verbatim>\<open>ee_1\<close> (1) and \<^verbatim>\<open>ee_2\<close> (2).\<close>

definition fork_heap :: "link_id \<Rightarrow> link" where
  "fork_heap i =
    (if i = 0 then \<lparr>name = ''link1'', isjoint = True, jindex = Some 0, parent = None\<rparr>
     else if i = 1 then \<lparr>name = ''ee_1'', isjoint = True, jindex = Some 1, parent = Some 0\<rparr>
     else \<lparr>name = ''ee_2'', isjoint = True, jindex = Some 2, parent = Some 0\<rparr>)"

definition fork :: "unit robot" where
  "fork = fresh_robot fork_heap [0, 1, 2] [] [1, 2] 0"

text \<open>
  An arm \<^verbatim>\<open>base\<close> (0), \<^verbatim>\<open>arm\<close> (1) carrying a gripper rooted at \<^verbatim>\<open>hand\<close> (2); the gripper
  is named after its root link and its tool is a translation by 0.1 along z.
\<close>

definition hand_tool :: SE3 where
  "hand_tool = [[1, 0, 0, 0], [0, 1, 0, 0], [0, 0, 1, 1/10], [0, 0, 0, 1]]"

definition arm_heap :: "link_id \<Rightarrow> link" where
  "arm_heap i =
    (if i = 0 then \<lparr>name = ''base'', isjoint = False, jindex = None, parent = None\<rparr>
     else if i = 1 then \<lparr>name = ''arm'', isjoint = True, jindex = Some 0, parent = Some 0\<rparr>
     else \<lparr>name = ''hand'', isjoint = False, jindex = None, parent = Some 1\<rparr>)"

definition arm :: "unit robot" where
  "arm = fresh_robot arm_heap [0, 1]
           [\<lparr>gid = 0, gname = ''hand'', glinks = [2], gtool = hand_tool\<rparr>] [1] 0"

text \<open>The arm after \<^verbatim>\<open>get_path(end="hand")\<close>, and after \<^verbatim>\<open>get_path(end=hand_link)\<close>.\<close>

definition arm_after_name :: "unit robot" where
  "arm_after_name =
    cache_store (ensure_inner (arm\<lparr>cache_start := Some None\<rparr>) ''base'')
      ''base'' ''hand'' ([0, 1, 2], 1, hand_tool)"

definition arm_after_link :: "unit robot" where
  "arm_after_link =
    cache_store (ensure_inner (arm\<lparr>cache_start := Some None\<rparr>) ''base'')
      ''base'' ''hand'' ([0, 1, 2], 1, SE3_eye)"

section \<open>\<^verbatim>\<open>ERobot2.base\<close>: the property and its setter\<close>

text \<open>
  A planar transform (\<^verbatim>\<open>SE2\<close>) wraps its 3x3 homogeneous matrix; \<^verbatim>\<open>SE2()\<close> is the identity.
  The value assigned to \<^verbatim>\<open>robot.base\<close> is \<^verbatim>\<open>None\<close>, an \<^verbatim>\<open>SE2\<close> instance, or some other
  object, here an array. \<^verbatim>\<open>SE2.isvalid\<close> belongs to the spatialmath library and is a
  parameter. Of the robot only the two attributes \<^verbatim>\<open>_base\<close> and \<^verbatim>\<open>_tool\<close> matter.
\<close>

datatype SE2 = SE2 "real list list"

definition SE2_eye :: SE2 where
  "SE2_eye = SE2 [[1, 0, 0], [0, 1, 0], [0, 0, 1]]"

datatype base_arg = ArgNone | ArgSE2 SE2 | ArgArray "real list list"

record erobot2 =
  robot_base :: "SE2 option"
  robot_tool :: "SE2 option"

text \<open>
  The setter. \<open>self_is_ERobot2\<close> is the test \<^verbatim>\<open>isinstance(self, ERobot2)\<close>; it holds for
  every receiver of this method, which the class \<^verbatim>\<open>ERobot2\<close> defines, so that the final
  \<^verbatim>\<open>else: raise ValueError\<close> is out of reach for them. An object that is neither an \<^verbatim>\<open>SE2\<close>
  nor valid falls through both inner tests and changes nothing.
\<close>

definition base_setter ::
  "(real list list \<Rightarrow> bool) \<Rightarrow> bool \<Rightarrow> erobot2 \<Rightarrow> base_arg \<Rightarrow> error + erobot2" where
  "base_setter isvalid self_is_ERobot2 r T =
    (if T = ArgNone then Inr (r\<lparr>robot_base := None\<rparr>)
     else if self_is_ERobot2 then
       (case T of
          ArgSE2 X \<Rightarrow> Inr (r\<lparr>robot_base := Some X\<rparr>)
        | ArgArray A \<Rightarrow>
            (if isvalid A then Inr (r\<lparr>robot_tool := Some (SE2 A)\<rparr>) else Inr r)
        | ArgNone \<Rightarrow> Inr r)
     else Inl (ValueError ''base must be set to None (no tool) or SE2''))"

text \<open>The getter replaces a missing base by the identity and returns a copy of the base.\<close>

definition base_getter :: "erobot2 \<Rightarrow> SE2 \<times> erobot2" where
  "base_getter r =
    (case robot_base r of
       None \<Rightarrow> (SE2_eye, r\<lparr>robot_base := Some SE2_eye\<rparr>)
     | Some B \<Rightarrow> (B, r))"

text \<open>A validity test for the examples: a 3x3 array whose last row is \<open>0 0 1\<close>.\<close>

definition is_hom2 :: "real list list \<Rightarrow> bool" where
  "is_hom2 A = (length A = 3 \<and> (\<forall>row \<in> set A. length row = 3) \<and> A ! 2 = [0, 0, 1])"

section \<open>The velocity damper: \<^verbatim>\<open>link_collision_damper\<close>\<close>

text \<open>
  Links that carry collision shapes. A shape is an object (an address); what the method
  needs from the collision library and from the kinematics is a parameter, gathered in
  \<open>damper_env\<close>:
  \<^item> \<open>closest_point k di\<close> is \<^verbatim>\<open>link_col.closest_point(shape, di)\<close> for the collision shape
    \<open>k\<close> and the target shape: \<open>None\<close> when the distance comes back as \<^verbatim>\<open>None\<close>, otherwise
    the distance and the two closest points;
  \<^item> \<open>shape_v\<close> is \<^verbatim>\<open>shape.v\<close>, the velocity of the target;
  \<^item> \<open>jacobe q start link k\<close> is \<^verbatim>\<open>self.jacobe(q, start=start, end=link, tool=link_col.T)\<close>,
    a 6 x \<open>n_dim\<close> array given by its columns;
  \<^item> \<open>numpy_distance\<close> says whether \<^verbatim>\<open>closest_point\<close> gives the distance as a numpy scalar
    (otherwise: as a Python float), which decides what a scalar division by zero does.
  The numbers that the caller and the libraries supply (\<open>di\<close>, \<open>ds\<close>, \<open>xi\<close>, the distance,
  the points, the velocity, the Jacobian) are finite floats and are read as reals, without
  rounding. The method's own arithmetic can leave the finite range where it divides by
  zero, so that its results are floats \<open>fl\<close>: a finite value, an infinity or \<^verbatim>\<open>nan\<close>.
\<close>

type_synonym shape_id = nat
type_synonym vec3 = "real \<times> real \<times> real"

record clink = link +
  collision :: "shape_id list"

record 'q damper_env =
  closest_point :: "shape_id \<Rightarrow> real \<Rightarrow> (real \<times> vec3 \<times> vec3) option"
  shape_v :: "real list"
  jacobe :: "'q \<Rightarrow> link_id \<Rightarrow> link_id \<Rightarrow> shape_id \<Rightarrow> real list list"
  numpy_distance :: bool

datatype fl = Fin real | PInf | NInf | NaN

fun is_fin :: "fl \<Rightarrow> bool" where
  "is_fin (Fin r) = True"
| "is_fin w = False"

text \<open>Addition: \<^verbatim>\<open>nan\<close> absorbs, opposite infinities give \<^verbatim>\<open>nan\<close>, an infinity wins.\<close>

fun fadd :: "fl \<Rightarrow> fl \<Rightarrow> fl" where
  "fadd (Fin a) (Fin b) = Fin (a + b)"
| "fadd NaN w = NaN"
| "fadd w NaN = NaN"
| "fadd PInf NInf = NaN"
| "fadd NInf PInf = NaN"
| "fadd PInf w = PInf"
| "fadd w PInf = PInf"
| "fadd NInf w = NInf"
| "fadd w NInf = NInf"

text \<open>The product of a float with a finite number: an infinity times zero is \<^verbatim>\<open>nan\<close>.\<close>

fun fscale :: "fl \<Rightarrow> real \<Rightarrow> fl" where
  "fscale (Fin a) b = Fin (a * b)"
| "fscale NaN b = NaN"
| "fscale PInf b = (if 0 < b then PInf else if b < 0 then NInf else NaN)"
| "fscale NInf b = (if 0 < b then NInf else if b < 0 then PInf else NaN)"

text \<open>
  The quotient of two finite numbers as numpy computes it for an array: a division by
  zero raises nothing (it warns) and gives an infinity, or \<^verbatim>\<open>nan\<close> for \<open>0 / 0\<close>.
\<close>

definition fdiv :: "real \<Rightarrow> real \<Rightarrow> fl" where
  "fdiv x y =
    (if y \<noteq> 0 then Fin (x / y) else if 0 < x then PInf else if x < 0 then NInf else NaN)"

text \<open>\<^verbatim>\<open>norm = (-wTlp + wTcp) / d\<close> and \<^verbatim>\<open>norm_h = concatenate((norm, [0, 0, 0]))\<close>.\<close>

definition separation :: "vec3 \<Rightarrow> vec3 \<Rightarrow> real \<Rightarrow> fl list" where
  "separation wTlp wTcp d =
    (case (wTlp, wTcp) of
       ((a, b, c), (x, y, z)) \<Rightarrow> [fdiv (- a + x) d, fdiv (- b + y) d, fdiv (- c + z) d])"

definition norm_h :: "vec3 \<Rightarrow> vec3 \<Rightarrow> real \<Rightarrow> fl list" where
  "norm_h wTlp wTcp d = separation wTlp wTcp d @ [Fin 0, Fin 0, Fin 0]"

text \<open>
  The product of a row with a vector of finite numbers (\<^verbatim>\<open>@\<close>), which needs equal
  lengths. Whether the sum is finite, an infinity or \<^verbatim>\<open>nan\<close>, and its value when finite, do
  not depend on the order of the additions.
\<close>

definition dot :: "fl list \<Rightarrow> real list \<Rightarrow> error + fl" where
  "dot u v =
    (if length u = length v
     then Inr (foldr fadd (map (\<lambda>(x, y). fscale x y) (zip u v)) (Fin 0))
     else Inl (ValueError ''matmul: dimension mismatch''))"

text \<open>A row times a matrix given by its columns.\<close>

fun row_times :: "fl list \<Rightarrow> real list list \<Rightarrow> error + fl list" where
  "row_times u [] = Inr []"
| "row_times u (c # cs) =
     (case dot u c of
        Inl e \<Rightarrow> Inl e
      | Inr x \<Rightarrow> (case row_times u cs of Inl e \<Rightarrow> Inl e | Inr xs \<Rightarrow> Inr (x # xs)))"

text \<open>
  \<^verbatim>\<open>indiv_calculation(link, link_col, q)\<close>. The result is the pair \<^verbatim>\<open>(l_Ain, l_bin)\<close>: a
  1 x \<open>n\<close> array (one row) and an array of length one, or twice \<^verbatim>\<open>None\<close>.
  At \<open>d = 0\<close> the division of the array \<^verbatim>\<open>lpTcp\<close> by \<open>d\<close> raises nothing: the row and the
  bound are computed from what it gives. \<^verbatim>\<open>l_Ain[0, :n_dim] = norm_h @ Je\<close> needs
  \<open>n_dim \<le> n\<close>. \<^verbatim>\<open>xi * (d - ds) / (di - ds)\<close> is a division of scalars: at \<open>di = ds\<close> it
  raises \<^verbatim>\<open>ZeroDivisionError\<close> when the numerator is a Python float, and gives an infinity
  or \<^verbatim>\<open>nan\<close> when \<open>d\<close>, and with it the numerator, is a numpy scalar.
\<close>

definition indiv_calculation ::
  "'q damper_env \<Rightarrow> link_id \<Rightarrow> nat \<Rightarrow> real \<Rightarrow> real \<Rightarrow> real \<Rightarrow> link_id \<Rightarrow> shape_id \<Rightarrow> 'q
     \<Rightarrow> error + (fl list list option \<times> fl list option)" where
  "indiv_calculation env start n di ds xi link link_col q =
    (case closest_point env link_col di of
       None \<Rightarrow> Inr (None, None)
     | Some (d, wTlp, wTcp) \<Rightarrow>
         (case dot (norm_h wTlp wTcp d) (shape_v env) of
            Inl e \<Rightarrow> Inl e
          | Inr dp \<Rightarrow>
              (case row_times (norm_h wTlp wTcp d) (jacobe env q start link link_col) of
                 Inl e \<Rightarrow> Inl e
               | Inr JeRow \<Rightarrow>
                   (if length JeRow > n
                    then Inl (ValueError ''could not broadcast input array'')
                    else if di - ds = 0 \<and> \<not> numpy_distance env then Inl ZeroDivisionError
                    else Inr (Some [JeRow @ replicate (n - length JeRow) (Fin 0)],
                              Some [fadd (fdiv (xi * (d - ds)) (di - ds)) dp])))))"

text \<open>
  The body of the inner loop after \<^verbatim>\<open>indiv_calculation\<close>: stack the row under \<^verbatim>\<open>Ain\<close> and
  the bound under \<^verbatim>\<open>bin\<close>, both \<^verbatim>\<open>None\<close> at first.
\<close>

type_synonym damper_acc = "fl list list option \<times> fl list option"

definition stack :: "damper_acc \<Rightarrow> fl list list option \<times> fl list option \<Rightarrow> damper_acc" where
  "stack acc l =
    (case (acc, l) of
       ((Ain, bin), (Some l_Ain, Some l_bin)) \<Rightarrow>
         ((case Ain of None \<Rightarrow> Some l_Ain | Some A \<Rightarrow> Some (A @ l_Ain)),
          (case bin of None \<Rightarrow> Some l_bin | Some b \<Rightarrow> Some (b @ l_bin)))
     | ((Ain, bin), _) \<Rightarrow> (Ain, bin))"

text \<open>\<^verbatim>\<open>for link_col in col_list\<close>\<close>

fun damper_shapes ::
  "'q damper_env \<Rightarrow> link_id \<Rightarrow> nat \<Rightarrow> real \<Rightarrow> real \<Rightarrow> real \<Rightarrow> 'q \<Rightarrow> link_id \<Rightarrow> shape_id list
     \<Rightarrow> damper_acc \<Rightarrow> error + damper_acc" where
  "damper_shapes env start n di ds xi q link [] acc = Inr acc"
| "damper_shapes env start n di ds xi q link (link_col # cs) acc =
     (case indiv_calculation env start n di ds xi link link_col q of
        Inl e \<Rightarrow> Inl e
      | Inr l \<Rightarrow> damper_shapes env start n di ds xi q link cs (stack acc l))"

text \<open>Python's \<^verbatim>\<open>xs[i]\<close>: a negative index counts from the end.\<close>

definition py_index :: "'a list \<Rightarrow> int \<Rightarrow> error + 'a" where
  "py_index xs i =
    (let len = int (length xs); k = (if i < 0 then len + i else i)
     in if 0 \<le> k \<and> k < len then Inr (xs ! nat k) else Inl IndexError)"

text \<open>\<^verbatim>\<open>col_list\<close>: the link's own shapes, or \<^verbatim>\<open>collision_list[j - 1]\<close>.\<close>

definition col_list ::
  "(link_id \<Rightarrow> 'z clink_scheme) \<Rightarrow> shape_id list list option \<Rightarrow> link_id \<Rightarrow> nat
     \<Rightarrow> error + shape_id list" where
  "col_list h collision_list link j =
    (case collision_list of
       None \<Rightarrow> Inr (collision (h link))
     | Some cl \<Rightarrow> py_index cl (int j - 1))"

text \<open>\<^verbatim>\<open>for link in links\<close>, with the joint counter \<open>j\<close>.\<close>

fun damper_links ::
  "'q damper_env \<Rightarrow> (link_id \<Rightarrow> 'z clink_scheme) \<Rightarrow> shape_id list list option \<Rightarrow> link_id
     \<Rightarrow> nat \<Rightarrow> real \<Rightarrow> real \<Rightarrow> real \<Rightarrow> 'q \<Rightarrow> link_id list \<Rightarrow> nat \<Rightarrow> damper_acc
     \<Rightarrow> error + damper_acc" where
  "damper_links env h collision_list start n di ds xi q [] j acc = Inr acc"
| "damper_links env h collision_list start n di ds xi q (link # ls) j acc =
     (let j' = (if isjoint (h link) then j + 1 else j) in
      case col_list h collision_list link j' of
        Inl e \<Rightarrow> Inl e
      | Inr cols \<Rightarrow>
          (case damper_shapes env start n di ds xi q link cols acc of
             Inl e \<Rightarrow> Inl e
           | Inr acc' \<Rightarrow> damper_links env h collision_list start n di ds xi q ls j' acc'))"

text \<open>
  The method: resolve the end points, resolve the path between the two links, run the
  loops. \<open>None\<close> stands for a path walk that does not return.
\<close>

definition link_collision_damper ::
  "'q damper_env \<Rightarrow> 'z clink_ext robot \<Rightarrow> 'q \<Rightarrow> real \<Rightarrow> real \<Rightarrow> real
     \<Rightarrow> designator option \<Rightarrow> designator option \<Rightarrow> shape_id list list option
     \<Rightarrow> ((error + damper_acc) \<times> 'z clink_ext robot) option" where
  "link_collision_damper env r q di ds xi end' start collision_list =
    (case get_limit_links r end' start of
       (Inl e, r1) \<Rightarrow> Some (Inl e, r1)
     | (Inr (end_ret, start_ret, _), r1) \<Rightarrow>
         (case get_path r1 (Some (DLink end_ret)) (Some (DLink start_ret)) of
            None \<Rightarrow> None
          | Some (Inl e, r2) \<Rightarrow> Some (Inl e, r2)
          | Some (Inr (path, n, _), r2) \<Rightarrow>
              Some (damper_links env (heap r2) collision_list start_ret n di ds xi q path 0
                      (None, None),
                    r2)))"

text \<open>
  The link/shape pairs that the loops visit, in order; \<open>None\<close> where a \<^verbatim>\<open>collision_list\<close>
  lookup fails.
\<close>

fun pairs ::
  "(link_id \<Rightarrow> 'z clink_scheme) \<Rightarrow> shape_id list list option \<Rightarrow> link_id list \<Rightarrow> nat
     \<Rightarrow> (link_id \<times> shape_id) list option" where
  "pairs h collision_list [] j = Some []"
| "pairs h collision_list (link # ls) j =
     (let j' = (if isjoint (h link) then j + 1 else j) in
      case col_list h collision_list link j' of
        Inl e \<Rightarrow> None
      | Inr cols \<Rightarrow>
          (case pairs h collision_list ls j' of
             None \<Rightarrow> None
           | Some ps \<Rightarrow> Some (map (Pair link) cols @ ps)))"

text \<open>The rows and the bounds of the interacting pairs of a list of pairs, stacked.\<close>

fun rows_of ::
  "'q damper_env \<Rightarrow> link_id \<Rightarrow> nat \<Rightarrow> real \<Rightarrow> real \<Rightarrow> real \<Rightarrow> 'q \<Rightarrow> (link_id \<times> shape_id) list
     \<Rightarrow> fl list list \<times> fl list" where
  "rows_of env start n di ds xi q [] = ([], [])"
| "rows_of env start n di ds xi q ((link, c) # ps) =
     (case indiv_calculation env start n di ds xi link c q of
        Inr (Some l_Ain, Some l_bin) \<Rightarrow>
          (l_Ain @ fst (rows_of env start n di ds xi q ps),
           l_bin @ snd (rows_of env start n di ds xi q ps))
      | _ \<Rightarrow> rows_of env start n di ds xi q ps)"

text \<open>\<^verbatim>\<open>Ain\<close> and \<^verbatim>\<open>bin\<close> as the loops keep them: \<^verbatim>\<open>None\<close> as long as nothing was stacked.\<close>

definition stacked :: "'a list \<Rightarrow> 'a list option" where
  "stacked xs = (if xs = [] then None else Some xs)"

text \<open>A pair interacts when \<^verbatim>\<open>closest_point\<close> reports a distance.\<close>

definition interacts :: "'q damper_env \<Rightarrow> real \<Rightarrow> link_id \<times> shape_id \<Rightarrow> bool" where
  "interacts env di p = (closest_point env (snd p) di \<noteq> None)"

text \<open>
  An example. The collision shape 0 is 0.05 away from the target, in the direction
  \<open>(3/5, 4/5, 0)\<close>; the shape 2 touches the target (distance 0, the two closest points
  coincide); the shape 3 is 0.1 away along z; each of them is reported when the
  influence distance exceeds its distance (for the touching shape: exceeds 0.02), and
  every other shape is out of reach. The target moves with the velocity \<open>(1, 2, 0)\<close>; the
  Jacobian has one column; distances are Python floats.
\<close>

definition env1 :: "unit damper_env" where
  "env1 =
    \<lparr>closest_point =
       (\<lambda>k di.
          if k = 0 \<and> 1/20 < di then Some (1/20, (1, 2, 3), (1 + 3/100, 2 + 4/100, 3))
          else if k = 2 \<and> 1/50 < di then Some (0, (1, 0, 0), (1, 0, 0))
          else if k = 3 \<and> 1/10 < di then Some (1/10, (0, 0, 0), (0, 0, 1/10))
          else None),
     shape_v = [1, 2, 0, 0, 0, 0],
     jacobe = (\<lambda>q start link k. [[0, 1, 0, 0, 0, 0]]),
     numpy_distance = False\<rparr>"

text \<open>
  A robot with collision shapes: the fixed \<^verbatim>\<open>base\<close> (0) carries the shape 0, the joint
  \<^verbatim>\<open>tip\<close> (1) carries the shapes 1, 2 and 3. \<open>duo_limits\<close> is the robot after \<^verbatim>\<open>_get_limit_links()\<close>,
  \<open>duo_path\<close> after the path from \<^verbatim>\<open>base\<close> to \<^verbatim>\<open>tip\<close> has been stored.
\<close>

definition duo_heap :: "link_id \<Rightarrow> clink" where
  "duo_heap i =
    (if i = 0
     then \<lparr>name = ''base'', isjoint = False, jindex = None, parent = None, collision = [0]\<rparr>
     else \<lparr>name = ''tip'', isjoint = True, jindex = Some 0, parent = Some 0,
           collision = [1, 2, 3]\<rparr>)"

definition duo :: "unit clink_ext robot" where
  "duo = fresh_robot duo_heap [0, 1] [] [1] 0"

definition duo_limits :: "unit clink_ext robot" where
  "duo_limits = duo\<lparr>cache_end := Some None, cache_end_tool := Some None, cache_start := Some None\<rparr>"

definition duo_path :: "unit clink_ext robot" where
  "duo_path = cache_store (ensure_inner duo_limits ''base'') ''base'' ''tip'' ([0, 1], 1, SE3_eye)"

section \<open>Inverse dynamics: \<^verbatim>\<open>rne\<close>\<close>

text \<open>
  The spatial algebra (\<^verbatim>\<open>SE3\<close>, \<^verbatim>\<open>SpatialVelocity\<close>, \<^verbatim>\<open>SpatialAcceleration\<close>,
  \<^verbatim>\<open>SpatialForce\<close>, \<^verbatim>\<open>SpatialInertia\<close>) belongs to the spatialmath library; its operations
  are parameters, gathered in \<open>spatial_ops\<close>, over any scalars \<open>'a\<close>, transforms \<open>'t\<close>,
  six-vectors \<open>'v\<close> and inertias \<open>'i\<close>:
  \<^item> \<open>se3_eye\<close>, \<open>se3_mul\<close>, \<open>se3_inv\<close>: \<^verbatim>\<open>SE3()\<close>, \<^verbatim>\<open>*\<close> on transforms, \<^verbatim>\<open>.inv()\<close>;
  \<^item> \<open>xform_m\<close>, \<open>xform_f\<close>: a transform applied to a motion vector, to a force;
  \<^item> \<open>vadd\<close>, \<open>vneg\<close>, \<open>vzero\<close>: \<^verbatim>\<open>+\<close>, unary \<^verbatim>\<open>-\<close> and the value that \<^verbatim>\<open>Alloc\<close> fills in;
  \<^item> \<open>crm\<close>, \<open>crf\<close>: \<^verbatim>\<open>v @ vJ\<close> and \<^verbatim>\<open>v @ (I * v)\<close>;
  \<^item> \<open>imul\<close>, \<open>inertia\<close>, \<open>inertia0\<close>: \<^verbatim>\<open>I * x\<close>, \<^verbatim>\<open>SpatialInertia(m=, r=)\<close> and the \<^verbatim>\<open>Alloc\<close> value;
  \<^item> \<open>scale\<close>: \<^verbatim>\<open>s[j] * x\<close> made a spatial vector; \<open>proj\<close>: \<^verbatim>\<open>sum(f.A * s)\<close>.
  A link carries, next to the attributes of the path model, its constant transform
  \<^verbatim>\<open>Ts\<close> (or \<^verbatim>\<open>None\<close>), its transform \<^verbatim>\<open>A(q)\<close>, mass \<^verbatim>\<open>m\<close>, centre of mass \<^verbatim>\<open>r\<close> and the motion
  subspace \<^verbatim>\<open>v.s\<close> of its joint (\<open>None\<close> when \<^verbatim>\<open>link.v\<close> is \<^verbatim>\<open>None\<close>).
\<close>

record ('a, 't, 'v, 'i) spatial_ops =
  se3_eye :: 't
  se3_mul :: "'t \<Rightarrow> 't \<Rightarrow> 't"
  se3_inv :: "'t \<Rightarrow> 't"
  xform_m :: "'t \<Rightarrow> 'v \<Rightarrow> 'v"
  xform_f :: "'t \<Rightarrow> 'v \<Rightarrow> 'v"
  vadd :: "'v \<Rightarrow> 'v \<Rightarrow> 'v"
  vneg :: "'v \<Rightarrow> 'v"
  vzero :: 'v
  crm :: "'v \<Rightarrow> 'v \<Rightarrow> 'v"
  crf :: "'v \<Rightarrow> 'v \<Rightarrow> 'v"
  imul :: "'i \<Rightarrow> 'v \<Rightarrow> 'v"
  inertia :: "'a \<Rightarrow> 'a list \<Rightarrow> 'i"
  inertia0 :: 'i
  scale :: "'v \<Rightarrow> 'a \<Rightarrow> 'v"
  proj :: "'v \<Rightarrow> 'v \<Rightarrow> 'a"

record ('a, 't, 'v) dlink = link +
  link_Ts :: "'t option"
  link_A :: "'a \<Rightarrow> 't"
  link_m :: 'a
  link_r :: "'a list"
  link_v_s :: "'v option"

text \<open>Reading and writing a list by index: out of range is an \<^verbatim>\<open>IndexError\<close>.\<close>

definition nth_err :: "'x list \<Rightarrow> nat \<Rightarrow> error + 'x" where
  "nth_err xs i = (if i < length xs then Inr (xs ! i) else Inl IndexError)"

definition upd_err :: "'x list \<Rightarrow> nat \<Rightarrow> 'x \<Rightarrow> error + 'x list" where
  "upd_err xs i x = (if i < length xs then Inr (xs[i := x]) else Inl IndexError)"

text \<open>Sequencing of steps that may raise.\<close>

definition ebind :: "error + 'x \<Rightarrow> ('x \<Rightarrow> error + 'y) \<Rightarrow> error + 'y" where
  "ebind m f = (case m of Inl e \<Rightarrow> Inl e | Inr x \<Rightarrow> f x)"

text \<open>\<^verbatim>\<open>SE3(link.Ts, check=False)\<close>: the identity when \<^verbatim>\<open>Ts\<close> is \<^verbatim>\<open>None\<close>.\<close>

definition SE3_of :: "('a, 't, 'v, 'i) spatial_ops \<Rightarrow> 't option \<Rightarrow> 't" where
  "SE3_of ops Ts = (case Ts of None \<Rightarrow> se3_eye ops | Some T \<Rightarrow> T)"

text \<open>
  The first loop, \<^verbatim>\<open>for link in self.links\<close>. Its state is the joint counter \<open>j\<close>, the
  tracker \<open>Ts\<close> of the fixed links passed since the last joint, and the arrays \<open>I\<close>,
  \<open>Xtree\<close> and \<open>s\<close>.
\<close>

type_synonym ('t, 'v, 'i) pre_state = "nat \<times> 't \<times> 'i list \<times> 't list \<times> 'v list"

fun rne_init ::
  "('a, 't, 'v, 'i) spatial_ops \<Rightarrow> (link_id \<Rightarrow> ('a, 't, 'v) dlink) \<Rightarrow> bool \<Rightarrow> link_id list
     \<Rightarrow> ('t, 'v, 'i) pre_state \<Rightarrow> error + ('t, 'v, 'i) pre_state" where
  "rne_init ops h symbolic [] st = Inr st"
| "rne_init ops h symbolic (l # ls) (j, Ts, I, Xtree, s) =
     (if isjoint (h l) then
        ebind (upd_err I j (inertia ops (link_m (h l)) (link_r (h l)))) (\<lambda>I'.
        ebind (upd_err Xtree j
                 (if symbolic \<and> link_Ts (h l) = None then se3_eye ops
                  else se3_mul ops Ts (SE3_of ops (link_Ts (h l))))) (\<lambda>Xtree'.
        rne_init ops h symbolic ls
          (j + 1, se3_eye ops, I', Xtree',
           (case link_v_s (h l) of None \<Rightarrow> s | Some sv \<Rightarrow> s @ [sv]))))
      else
        rne_init ops h symbolic ls
          (j, se3_mul ops Ts (SE3_of ops (link_Ts (h l))), I, Xtree, s))"

text \<open>
  One round of the forward recursion, for the index \<open>j\<close>. The state is the arrays
  \<open>Xup\<close>, \<open>v\<close>, \<open>a\<close>, \<open>f\<close>. The link is \<^verbatim>\<open>self.links[j]\<close>; its parent's \<^verbatim>\<open>jindex\<close> may be
  \<^verbatim>\<open>None\<close>, and indexing with \<^verbatim>\<open>None\<close> is a \<^verbatim>\<open>TypeError\<close>.
\<close>

type_synonym ('t, 'v) fwd_state = "'t list \<times> 'v list \<times> 'v list \<times> 'v list"

definition parent_jindex ::
  "(link_id \<Rightarrow> ('a, 't, 'v) dlink) \<Rightarrow> link_id \<Rightarrow> error + nat" where
  "parent_jindex h p =
    (case jindex (h p) of
       None \<Rightarrow> Inl (TypeError ''list indices must be integers or slices, not NoneType'')
     | Some jp \<Rightarrow> Inr jp)"

definition rne_forward_step ::
  "('a, 't, 'v, 'i) spatial_ops \<Rightarrow> (link_id \<Rightarrow> ('a, 't, 'v) dlink) \<Rightarrow> link_id list
     \<Rightarrow> 'a list \<Rightarrow> 'a list \<Rightarrow> 'a list \<Rightarrow> 'v list \<Rightarrow> 'i list \<Rightarrow> 'v
     \<Rightarrow> nat \<Rightarrow> ('t, 'v) fwd_state \<Rightarrow> error + ('t, 'v) fwd_state" where
  "rne_forward_step ops h ls q qd qdd s I a_grav j st =
    (case st of (Xup, v, a, f) \<Rightarrow>
      ebind (nth_err s j) (\<lambda>sj.
      ebind (nth_err qd j) (\<lambda>qdj.
      let vJ = scale ops sj qdj in
      ebind (nth_err ls j) (\<lambda>l.
      ebind (nth_err q j) (\<lambda>qj.
      ebind (upd_err Xup j (se3_inv ops (link_A (h l) qj))) (\<lambda>Xup'.
      let Xj = se3_inv ops (link_A (h l) qj) in
      ebind
        (case parent (h l) of
           None \<Rightarrow>
             ebind (upd_err v j vJ) (\<lambda>v'.
             ebind (nth_err qdd j) (\<lambda>qddj.
             ebind (upd_err a j (vadd ops (xform_m ops Xj a_grav) (scale ops sj qddj))) (\<lambda>a'.
             Inr (v', a'))))
         | Some p \<Rightarrow>
             ebind (parent_jindex h p) (\<lambda>jp.
             ebind (nth_err v jp) (\<lambda>vjp.
             ebind (upd_err v j (vadd ops (xform_m ops Xj vjp) vJ)) (\<lambda>v'.
             ebind (nth_err a jp) (\<lambda>ajp.
             ebind (nth_err qdd j) (\<lambda>qddj.
             ebind (nth_err v' j) (\<lambda>vj.
             ebind (upd_err a j
                      (vadd ops (vadd ops (xform_m ops Xj ajp) (scale ops sj qddj))
                         (crm ops vj vJ))) (\<lambda>a'.
             Inr (v', a')))))))))
        (\<lambda>(v', a').
      ebind (nth_err I j) (\<lambda>Ij.
      ebind (nth_err a' j) (\<lambda>aj.
      ebind (nth_err v' j) (\<lambda>vj.
      ebind (upd_err f j (vadd ops (imul ops Ij aj) (crf ops vj (imul ops Ij vj)))) (\<lambda>f'.
      Inr (Xup', v', a', f'))))))))))))"

fun rne_forward ::
  "('a, 't, 'v, 'i) spatial_ops \<Rightarrow> (link_id \<Rightarrow> ('a, 't, 'v) dlink) \<Rightarrow> link_id list
     \<Rightarrow> 'a list \<Rightarrow> 'a list \<Rightarrow> 'a list \<Rightarrow> 'v list \<Rightarrow> 'i list \<Rightarrow> 'v
     \<Rightarrow> nat list \<Rightarrow> ('t, 'v) fwd_state \<Rightarrow> error + ('t, 'v) fwd_state" where
  "rne_forward ops h ls q qd qdd s I a_grav [] st = Inr st"
| "rne_forward ops h ls q qd qdd s I a_grav (j # js) st =
     ebind (rne_forward_step ops h ls q qd qdd s I a_grav j st)
       (rne_forward ops h ls q qd qdd s I a_grav js)"

text \<open>
  One round of the backward recursion: \<^verbatim>\<open>Q[j]\<close> is set, and the force is passed to the
  parent's index. The state is the arrays \<open>f\<close> and \<open>Q\<close> (\<open>None\<close> for an entry of the
  uninitialised \<^verbatim>\<open>empty((n,))\<close> not yet written).
\<close>

definition rne_backward_step ::
  "('a, 't, 'v, 'i) spatial_ops \<Rightarrow> (link_id \<Rightarrow> ('a, 't, 'v) dlink) \<Rightarrow> link_id list
     \<Rightarrow> 'v list \<Rightarrow> 't list \<Rightarrow> nat \<Rightarrow> 'v list \<times> 'a option list
     \<Rightarrow> error + ('v list \<times> 'a option list)" where
  "rne_backward_step ops h ls s Xup j st =
    (case st of (f, Q) \<Rightarrow>
      ebind (nth_err f j) (\<lambda>fj.
      ebind (nth_err s j) (\<lambda>sj.
      ebind (upd_err Q j (Some (proj ops fj sj))) (\<lambda>Q'.
      ebind (nth_err ls j) (\<lambda>l.
      (case parent (h l) of
         None \<Rightarrow> Inr (f, Q')
       | Some p \<Rightarrow>
           ebind (parent_jindex h p) (\<lambda>jp.
           ebind (nth_err f jp) (\<lambda>fjp.
           ebind (nth_err Xup j) (\<lambda>Xj.
           ebind (upd_err f jp (vadd ops fjp (xform_f ops Xj fj))) (\<lambda>f'.
           Inr (f', Q')))))))))))"

fun rne_backward ::
  "('a, 't, 'v, 'i) spatial_ops \<Rightarrow> (link_id \<Rightarrow> ('a, 't, 'v) dlink) \<Rightarrow> link_id list
     \<Rightarrow> 'v list \<Rightarrow> 't list \<Rightarrow> nat list \<Rightarrow> 'v list \<times> 'a option list
     \<Rightarrow> error + ('v list \<times> 'a option list)" where
  "rne_backward ops h ls s Xup [] st = Inr st"
| "rne_backward ops h ls s Xup (j # js) st =
     ebind (rne_backward_step ops h ls s Xup j st) (rne_backward ops h ls s Xup js)"

text \<open>
  \<^verbatim>\<open>rne(q, qd, qdd, symbolic, gravity)\<close> for a robot with the links \<open>ls\<close> and \<open>n\<close> joints;
  \<open>grav\<close> is \<^verbatim>\<open>SpatialAcceleration(gravity)\<close> (of the argument, or of the robot when the
  argument is \<^verbatim>\<open>None\<close>). The result is the array \<^verbatim>\<open>Q\<close>.
\<close>

definition rne ::
  "('a, 't, 'v, 'i) spatial_ops \<Rightarrow> (link_id \<Rightarrow> ('a, 't, 'v) dlink) \<Rightarrow> link_id list \<Rightarrow> nat
     \<Rightarrow> 'a list \<Rightarrow> 'a list \<Rightarrow> 'a list \<Rightarrow> bool \<Rightarrow> 'v \<Rightarrow> error + 'a option list" where
  "rne ops h ls n q qd qdd symbolic grav =
    ebind (rne_init ops h symbolic ls
             (0, se3_eye ops, replicate n (inertia0 ops), replicate n (se3_eye ops), []))
      (\<lambda>(j, Ts, I, Xtree, s).
    ebind (rne_forward ops h ls q qd qdd s I (vneg ops grav) [0..<n]
             (replicate n (se3_eye ops), replicate n (vzero ops), replicate n (vzero ops),
              replicate n (vzero ops)))
      (\<lambda>(Xup, v, a, f).
    ebind (rne_backward ops h ls s Xup (rev [0..<n]) (f, replicate n None))
      (\<lambda>(f', Q). Inr Q)))"

text \<open>
  A robot with a fixed link between two joints: the joint \<^verbatim>\<open>j0\<close> (0, on the base), the
  fixed link \<^verbatim>\<open>f1\<close> (1) with the constant transform \<open>F\<close>, and the joint \<^verbatim>\<open>j2\<close> (2) with
  joint index 1. \<open>A0\<close> and \<open>A2\<close> are the transforms of the two joints, \<open>s0\<close> and \<open>s2\<close> their
  motion subspaces.
\<close>

definition mid_heap ::
  "(real \<Rightarrow> 't) \<Rightarrow> 't \<Rightarrow> (real \<Rightarrow> 't) \<Rightarrow> 'v \<Rightarrow> 'v \<Rightarrow> link_id \<Rightarrow> (real, 't, 'v) dlink" where
  "mid_heap A0 F A2 s0 s2 i =
    (if i = 0 then
       \<lparr>name = ''j0'', isjoint = True, jindex = Some 0, parent = None,
        link_Ts = None, link_A = A0, link_m = 1, link_r = [0, 0, 0], link_v_s = Some s0\<rparr>
     else if i = 1 then
       \<lparr>name = ''f1'', isjoint = False, jindex = None, parent = Some 0,
        link_Ts = Some F, link_A = (\<lambda>q. F), link_m = 0, link_r = [0, 0, 0], link_v_s = None\<rparr>
     else
       \<lparr>name = ''j2'', isjoint = True, jindex = Some 1, parent = Some 1,
        link_Ts = None, link_A = A2, link_m = 2, link_r = [0, 0, 0], link_v_s = Some s2\<rparr>)"

section \<open>Construction: \<^verbatim>\<open>BaseERobot.__init__\<close>\<close>

text \<open>
  The constructor as it stands: it sets six attributes, creates the empty list
  \<^verbatim>\<open>orlinks\<close> and hands that list to the constructor of the \<^verbatim>\<open>Robot\<close> superclass. The
  processing of \<^verbatim>\<open>links\<close> and \<^verbatim>\<open>gripper_links\<close> (names, parents, grippers, joint indices)
  is present only as comments, so neither argument is read. \<^verbatim>\<open>Robot.__init__\<close> is outside
  the source at hand and is a parameter; it is given the new object's attributes, the
  empty list and the keyword arguments. The caller's Link objects are not among its
  arguments, so the heap of links is returned as it was.
\<close>

record erobot_attrs =
  attr_path_cache_fknm :: "string \<rightharpoonup> (string \<rightharpoonup> path_result)"
  attr_path_cache :: "string \<rightharpoonup> (string \<rightharpoonup> path_result)"
  attr_eye_fknm :: SE3
  attr_linkdict :: "string \<rightharpoonup> link_id"
  attr_n :: nat
  attr_ee_links :: "link_id list"

definition init_attrs :: erobot_attrs where
  "init_attrs =
    \<lparr>attr_path_cache_fknm = Map.empty, attr_path_cache = Map.empty, attr_eye_fknm = SE3_eye,
     attr_linkdict = Map.empty, attr_n = 0, attr_ee_links = []\<rparr>"

definition BaseERobot_init ::
  "(erobot_attrs \<Rightarrow> link_id list \<Rightarrow> 'kw \<Rightarrow> 'robot) \<Rightarrow> (link_id \<Rightarrow> 'z link_scheme)
     \<Rightarrow> link_id list \<Rightarrow> link_id list option \<Rightarrow> bool \<Rightarrow> 'kw
     \<Rightarrow> 'robot \<times> (link_id \<Rightarrow> 'z link_scheme)" where
  "BaseERobot_init Robot_init h links' gripper_links checkjindex kwargs =
    (let orlinks = [] in (Robot_init init_attrs orlinks kwargs, h))"

text \<open>
  The four links of the class documentation as the caller builds them, without joint
  indices: \<^verbatim>\<open>link1\<close>, \<^verbatim>\<open>link2\<close>, \<^verbatim>\<open>link3\<close> are joints, \<^verbatim>\<open>ee\<close> is fixed.
\<close>

definition new_links_heap :: "link_id \<Rightarrow> link" where
  "new_links_heap i =
    (if i = 0 then \<lparr>name = ''link1'', isjoint = True, jindex = None, parent = None\<rparr>
     else if i = 1 then \<lparr>name = ''link2'', isjoint = True, jindex = None, parent = Some 0\<rparr>
     else if i = 2 then \<lparr>name = ''link3'', isjoint = True, jindex = None, parent = Some 1\<rparr>
     else \<lparr>name = ''ee'', isjoint = False, jindex = None, parent = Some 2\<rparr>)"

text \<open>An arm whose last two links, \<^verbatim>\<open>hand\<close> (2) and its joint \<^verbatim>\<open>finger\<close> (3), form a gripper.\<close>

definition new_arm_heap :: "link_id \<Rightarrow> link" where
  "new_arm_heap i =
    (if i = 0 then \<lparr>name = ''base'', isjoint = False, jindex = None, parent = None\<rparr>
     else if i = 1 then \<lparr>name = ''arm'', isjoint = True, jindex = None, parent = Some 0\<rparr>
     else if i = 2 then \<lparr>name = ''hand'', isjoint = False, jindex = None, parent = Some 1\<rparr>
     else \<lparr>name = ''finger'', isjoint = True, jindex = None, parent = Some 2\<rparr>)"

section \<open>Properties of the parent walk\<close>

lemma chain_hd: "chain h start l xs \<Longrightarrow> \<exists>ys. xs = l # ys"
  by (erule chain.cases) simp_all

lemma walk_chain:
  "chain h start l xs \<Longrightarrow>
   walk h start e l path n = Some (Inr (path @ tl xs, n + joint_count h (tl xs)))"
proof (induction arbitrary: path n rule: chain.induct)
  case chain_here
  show ?case by (subst walk.simps) (simp add: joint_count_def)
next
  case (chain_up l p xs)
  from chain_hd[OF chain_up.hyps(3)] obtain ys where xs: "xs = p # ys" by blast
  show ?case
    using chain_up.hyps(1,2) chain_up.IH[of "path @ [p]" "if isjoint (h p) then n + 1 else n"]
    by (subst walk.simps) (simp add: xs joint_count_def)
qed

lemma walk_no_path:
  "no_path h start l \<Longrightarrow>
   walk h start e l path n = Some (Inl (no_path_error (name (h start)) (name (h e))))"
proof (induction arbitrary: path n rule: no_path.induct)
  case (no_path_root l)
  then show ?case by (subst walk.simps) simp
next
  case (no_path_up l p)
  show ?case
    using no_path_up.hyps(1,2) no_path_up.IH
    by (subst walk.simps) simp
qed

lemma walk_sound:
  assumes "walk h start e l path n = Some y"
  shows "walk_post h start e l path n y"
proof (rule walk.raw_induct[where P = walk_post, OF _ assms])
  fix walk' :: "(link_id \<Rightarrow> 'a link_scheme) \<Rightarrow> link_id \<Rightarrow> link_id \<Rightarrow> link_id \<Rightarrow> link_id list \<Rightarrow> nat
     \<Rightarrow> (error + (link_id list \<times> nat)) option"
  fix h :: "link_id \<Rightarrow> 'a link_scheme" and start e l path n y
  assume IH: "\<And>h start e l path n y. walk' h start e l path n = Some y \<Longrightarrow> walk_post h start e l path n y"
  assume step: "(if l \<noteq> start
      then case parent (h l) of
           None \<Rightarrow> Some (Inl (no_path_error (name (h start)) (name (h e))))
           | Some p \<Rightarrow> walk' h start e p (path @ [p]) (if isjoint (h p) then n + 1 else n)
      else Some (Inr (path, n))) = Some y"
  show "walk_post h start e l path n y"
  proof (cases "l = start")
    case True
    with step have y: "y = Inr (path, n)" by simp
    have "chain h start start [start]" by (rule chain_here)
    then show ?thesis unfolding y True walk_post_def
      by (simp add: joint_count_def exI[of _ "[start]"])
  next
    case False
    show ?thesis
    proof (cases "parent (h l)")
      case None
      with False step have y: "y = Inl (no_path_error (name (h start)) (name (h e)))" by simp
      have "no_path h start l" using False None by (rule no_path_root)
      then show ?thesis unfolding y walk_post_def by simp
    next
      case (Some q)
      with False step
      have w: "walk' h start e q (path @ [q]) (if isjoint (h q) then n + 1 else n) = Some y"
        by simp
      note ih = IH[OF w, unfolded walk_post_def]
      show ?thesis
      proof (cases y)
        case (Inl err)
        with ih have np: "no_path h start q" and err: "err = no_path_error (name (h start)) (name (h e))"
          by simp_all
        have "no_path h start l" using False Some np by (rule no_path_up)
        then show ?thesis using err Inl by (simp add: walk_post_def)
      next
        case (Inr pm)
        obtain p m where pm: "pm = (p, m)" by (cases pm)
        from ih Inr pm obtain xs where xs: "chain h start q xs" "p = (path @ [q]) @ tl xs"
          "m = (if isjoint (h q) then n + 1 else n) + joint_count h (tl xs)" by auto
        from chain_hd[OF xs(1)] obtain ys where ys: "xs = q # ys" by blast
        have c: "chain h start l (l # xs)" using False Some xs(1) by (rule chain_up)
        have "p = path @ tl (l # xs)" using xs(2) ys by simp
        moreover have "m = n + joint_count h (tl (l # xs))" using xs(3) ys by (simp add: joint_count_def)
        ultimately show ?thesis using c Inr pm by (simp add: walk_post_def del: list.sel) blast
      qed
    qed
  qed
qed

lemma chain_no_path_excl: "chain h start l xs \<Longrightarrow> \<not> no_path h start l"
  using walk_chain[of h start l xs l "[]" 0] walk_no_path[of h start l l "[]" 0] by auto

lemma chain_unique: "chain h start l xs \<Longrightarrow> chain h start l ys \<Longrightarrow> xs = ys"
proof (induction arbitrary: ys rule: chain.induct)
  case chain_here
  then show ?case by (auto elim: chain.cases)
next
  case (chain_up l p xs)
  from chain_up.prems chain_up.hyps(1,2) obtain zs where "ys = l # zs" "chain h start p zs"
    by (auto elim: chain.cases)
  with chain_up.IH show ?case by simp
qed

lemma chain_Nil: "\<not> chain h s l []"
  by (auto elim: chain.cases)

lemma chain_Cons_iff:
  "chain h s l (x # xs) \<longleftrightarrow>
     x = l \<and> (if l = s then xs = []
              else case parent (h l) of None \<Rightarrow> False | Some p \<Rightarrow> chain h s p xs)"
  by (auto elim: chain.cases intro: chain.intros split: option.splits)

section \<open>Properties of \<^verbatim>\<open>_get_limit_links\<close>\<close>

lemma limit_end_frame:
  "limit_end r end' = (out, r1) \<Longrightarrow>
   heap r1 = heap r \<and> links r1 = links r \<and> grippers r1 = grippers r \<and>
   ee_links r1 = ee_links r \<and> base_link r1 = base_link r \<and> getlink r1 = getlink r \<and>
   path_cache r1 = path_cache r"
  by (auto simp: limit_end_def Let_def split: option.splits if_splits list.splits sum.splits prod.splits)

lemma limit_start_frame:
  "limit_start r start = (out, r1) \<Longrightarrow>
   heap r1 = heap r \<and> links r1 = links r \<and> grippers r1 = grippers r \<and>
   ee_links r1 = ee_links r \<and> base_link r1 = base_link r \<and> getlink r1 = getlink r \<and>
   path_cache r1 = path_cache r"
  by (auto simp: limit_start_def split: option.splits sum.splits)

lemma get_limit_links_frame:
  "get_limit_links r end' start = (out, r1) \<Longrightarrow>
   heap r1 = heap r \<and> links r1 = links r \<and> grippers r1 = grippers r \<and>
   ee_links r1 = ee_links r \<and> base_link r1 = base_link r \<and> getlink r1 = getlink r \<and>
   path_cache r1 = path_cache r"
  unfolding get_limit_links_def
  by (auto split: prod.splits sum.splits dest!: limit_end_frame limit_start_frame)

lemma gripper_first_link: "g \<in> set (grippers r) \<Longrightarrow> glinks g = l # ls \<Longrightarrow> l \<in> all_links r"
  by (force simp: all_links_def)

lemma limit_end_member:
  assumes wf: "wf_robot r" and le: "limit_end r end' = (Inr (e, t), r1)"
  shows "e \<in> all_links r"
proof (cases end')
  case None
  show ?thesis
  proof (cases "grippers r = []")
    case True
    with le None have ne: "ee_links r \<noteq> []" and e: "e = ee_links r ! 0"
      by (auto simp: limit_end_def split: if_splits list.splits)
    then have "e \<in> set (ee_links r)" by simp
    with wf show ?thesis by (auto simp: wf_robot_def)
  next
    case False
    then have g0: "grippers r ! 0 \<in> set (grippers r)" by simp
    from False have len: "length (grippers r) > 1 \<or> length (grippers r) = 1"
      by (cases "grippers r") auto
    with le None obtain ls where "glinks (grippers r ! 0) = e # ls"
      by (auto simp: limit_end_def split: if_splits list.splits)
    with g0 show ?thesis by (rule gripper_first_link)
  qed
next
  case (Some d)
  then show ?thesis using wf le
    by (auto simp: limit_end_def wf_robot_def Let_def split: sum.splits)
qed

lemma limit_start_member:
  assumes "wf_robot r" and "limit_start r start = (Inr s, r1)"
  shows "s \<in> all_links r"
  using assms by (auto simp: limit_start_def wf_robot_def split: option.splits sum.splits)

lemma all_links_frame:
  "links r1 = links r \<Longrightarrow> grippers r1 = grippers r \<Longrightarrow> all_links r1 = all_links r"
  by (simp add: all_links_def)

lemma get_limit_links_member:
  assumes wf: "wf_robot r" and gl: "get_limit_links r end' start = (Inr (e, s, t), r1)"
  shows "e \<in> all_links r \<and> s \<in> all_links r"
proof -
  from gl obtain r0 where le: "limit_end r end' = (Inr (e, t), r0)"
    and ls: "limit_start r0 start = (Inr s, r1)"
    by (auto simp: get_limit_links_def split: prod.splits sum.splits)
  from limit_end_frame[OF le] have fr: "links r0 = links r" "grippers r0 = grippers r"
    "getlink r0 = getlink r" "base_link r0 = base_link r" by simp_all
  have al: "all_links r0 = all_links r" using fr by (simp add: all_links_def)
  have "s \<in> all_links r"
    using ls wf fr al by (auto simp: limit_start_def wf_robot_def split: option.splits sum.splits)
  with limit_end_member[OF wf le] show ?thesis by simp
qed

lemma limits_with_cache:
  "get_limit_links (r\<lparr>path_cache := c\<rparr>) end' start =
     (fst (get_limit_links r end' start), (snd (get_limit_links r end' start))\<lparr>path_cache := c\<rparr>)"
  by (simp add: get_limit_links_def limit_end_def limit_start_def Let_def
        split: option.splits list.splits sum.splits prod.splits)

lemma limits_same_fields:
  assumes "grippers r' = grippers r" "ee_links r' = ee_links r" "base_link r' = base_link r"
    "getlink r' = getlink r"
  shows "fst (get_limit_links r' end' start) = fst (get_limit_links r end' start)"
  using assms
  by (simp add: get_limit_links_def limit_end_def limit_start_def Let_def
        split: option.splits list.splits sum.splits prod.splits)

text \<open>The tool that the end designator resolves to: none for a Link, the gripper's own for
  a Gripper of the robot.\<close>

lemma end_tool_link:
  "fold (\<lambda>g t. if end_is_gripper (DLink l) g then Some (gtool g) else t) gs t0 = t0"
  by (induction gs arbitrary: t0) (simp_all add: end_is_gripper_def)

lemma end_tool_gripper_skip:
  "gid g0 \<notin> gid ` set gs \<Longrightarrow>
   fold (\<lambda>g t. if end_is_gripper (DGripper (gid g0)) g then Some (gtool g) else t) gs t0 = t0"
  by (induction gs arbitrary: t0) (simp_all add: end_is_gripper_def)

lemma end_tool_gripper:
  assumes "distinct (map gid gs)" and "g0 \<in> set gs"
  shows "fold (\<lambda>g t. if end_is_gripper (DGripper (gid g0)) g then Some (gtool g) else t) gs t0 =
           Some (gtool g0)"
  using assms
proof (induction gs arbitrary: t0)
  case Nil
  then show ?case by simp
next
  case (Cons g gs)
  show ?case
  proof (cases "g = g0")
    case True
    with Cons.prems have "gid g0 \<notin> gid ` set gs" by auto
    from end_tool_gripper_skip[OF this] True show ?thesis by (simp add: end_is_gripper_def)
  next
    case False
    with Cons.prems have in_gs: "g0 \<in> set gs" and d: "distinct (map gid gs)" by auto
    from Cons.IH[OF d in_gs] show ?thesis by simp
  qed
qed

lemma limit_end_link_tool:
  "limit_end r (Some (DLink l)) = (Inr (e, t), r1) \<Longrightarrow> t = None"
  by (auto simp: limit_end_def end_tool_link split: sum.splits)

lemma limit_end_gripper_tool:
  assumes "distinct (map gid (grippers r))" and "g0 \<in> set (grippers r)"
    and "limit_end r (Some (DGripper (gid g0))) = (Inr (e, t), r1)"
  shows "t = Some (gtool g0)"
  using assms(3) end_tool_gripper[OF assms(1,2), of None]
  by (auto simp: limit_end_def split: sum.splits)

section \<open>Properties of \<^verbatim>\<open>get_path\<close>\<close>

lemma chain_Cons_tl: "chain h s e xs \<Longrightarrow> [e] @ tl xs = xs"
  by (drule chain_hd) auto

lemma joint_count_Cons_tl:
  "chain h s e xs \<Longrightarrow> (if isjoint (h e) then 1 else 0) + joint_count h (tl xs) = joint_count h xs"
  by (drule chain_hd) (auto simp: joint_count_def)

lemma walk_from_end:
  assumes ch: "chain h s e xs"
  shows "walk h s e e [e] (if isjoint (h e) then 1 else 0) = Some (Inr (xs, joint_count h xs))"
  using walk_chain[OF ch, of e "[e]" "if isjoint (h e) then 1 else 0"]
        chain_Cons_tl[OF ch] joint_count_Cons_tl[OF ch] by simp

lemma get_path_walk_chain:
  assumes ch: "chain (heap r) s e xs"
  shows "get_path_walk r e s tool =
           Some (Inr (rev xs, joint_count (heap r) xs, tool_or_eye tool),
                 cache_store (ensure_inner r (name (heap r s))) (name (heap r s)) (name (heap r e))
                   (rev xs, joint_count (heap r) xs, tool_or_eye tool))"
  unfolding get_path_walk_def walk_from_end[OF ch] by simp

lemma get_path_unfold:
  assumes "get_limit_links r end' start = (Inr (e, s, tool), r1)"
  shows "get_path r end' start =
    (case cache_lookup r1 (name (heap r s)) (name (heap r e)) of
       Some v \<Rightarrow> Some (Inr v, r1)
     | None \<Rightarrow> get_path_walk r1 e s tool)"
proof -
  have h: "heap r1 = heap r" using get_limit_links_frame[OF assms] by simp
  show ?thesis unfolding get_path_def assms by (simp add: h)
qed

lemma cache_lookup_frame: "path_cache r1 = path_cache r \<Longrightarrow> cache_lookup r1 = cache_lookup r"
  by (simp add: cache_lookup_def fun_eq_iff)

lemma ensure_inner_lookup: "cache_lookup (ensure_inner r sn) a b = cache_lookup r a b"
  by (simp add: cache_lookup_def ensure_inner_def)

lemma ensure_inner_frame:
  "heap (ensure_inner r sn) = heap r \<and> links (ensure_inner r sn) = links r \<and>
   grippers (ensure_inner r sn) = grippers r \<and> ee_links (ensure_inner r sn) = ee_links r \<and>
   base_link (ensure_inner r sn) = base_link r \<and> getlink (ensure_inner r sn) = getlink r"
  by (simp add: ensure_inner_def)

lemma cache_store_frame:
  "heap (cache_store r sn en v) = heap r \<and> links (cache_store r sn en v) = links r \<and>
   grippers (cache_store r sn en v) = grippers r \<and> ee_links (cache_store r sn en v) = ee_links r \<and>
   base_link (cache_store r sn en v) = base_link r \<and> getlink (cache_store r sn en v) = getlink r"
  by (simp add: cache_store_def)

lemma cache_store_lookup:
  "cache_lookup (cache_store r sn en v) a b =
     (if a = sn \<and> b = en then Some v else cache_lookup r a b)"
  by (simp add: cache_lookup_def cache_store_def split: option.splits)

lemma cached_chain:
  assumes wf: "wf_robot r" and mem: "e \<in> all_links r" "s \<in> all_links r"
    and hit: "cache_lookup r (name (heap r s)) (name (heap r e)) = Some v"
  shows "\<exists>xs. chain (heap r) s e xs \<and> fst v = rev xs \<and> fst (snd v) = joint_count (heap r) xs"
proof -
  obtain p n t where v: "v = (p, n, t)" by (cases v)
  from wf have "cache_ok r" by (simp add: wf_robot_def)
  with mem hit v show ?thesis unfolding cache_ok_def by fastforce
qed

text \<open>The invariant is kept by every call of \<^verbatim>\<open>get_path\<close>, whatever its outcome.\<close>

lemma wf_robot_frame:
  assumes "wf_robot r" and "heap r' = heap r" and "links r' = links r"
    and "grippers r' = grippers r" and "ee_links r' = ee_links r"
    and "base_link r' = base_link r" and "getlink r' = getlink r"
    and "\<And>a b. cache_lookup r' a b = cache_lookup r a b"
  shows "wf_robot r'"
proof -
  have al: "all_links r' = all_links r" using assms(3,4) by (simp add: all_links_def)
  have "cache_ok r'" using assms(1) unfolding wf_robot_def cache_ok_def al assms(2) assms(8)
    by simp
  then show ?thesis using assms(1) unfolding wf_robot_def al assms(2,5,6,7) by simp
qed

lemma get_path_preserves_wf:
  assumes wf: "wf_robot r" and g: "get_path r end' start = Some (out, r')"
  shows "wf_robot r'"
proof (cases "get_limit_links r end' start")
  case (Pair res r1)
  note fr = get_limit_links_frame[OF Pair]
  have cl: "cache_lookup r1 = cache_lookup r" using fr by (intro cache_lookup_frame) simp
  have wf1: "wf_robot r1" using wf fr cl by (intro wf_robot_frame[of r r1]) simp_all
  show ?thesis
  proof (cases res)
    case (Inl err)
    with g Pair have "r' = r1" by (simp add: get_path_def)
    with wf1 show ?thesis by simp
  next
    case (Inr x)
    obtain e s tool where x: "x = (e, s, tool)" by (cases x)
    have gl: "get_limit_links r end' start = (Inr (e, s, tool), r1)" using Pair Inr x by simp
    from get_limit_links_member[OF wf gl] have mem: "e \<in> all_links r" "s \<in> all_links r"
      by simp_all
    have h1: "heap r1 = heap r" using fr by simp
    let ?sn = "name (heap r s)" and ?en = "name (heap r e)"
    show ?thesis
    proof (cases "cache_lookup r ?sn ?en")
      case (Some v)
      with g have "r' = r1" unfolding get_path_unfold[OF gl] cl by simp
      with wf1 show ?thesis by simp
    next
      case None
      with g have gw: "get_path_walk r1 e s tool = Some (out, r')"
        unfolding get_path_unfold[OF gl] cl by simp
      let ?r2 = "ensure_inner r1 ?sn"
      have wf2: "wf_robot ?r2"
        using wf1 ensure_inner_frame[of r1 ?sn] ensure_inner_lookup[of r1 ?sn]
        by (intro wf_robot_frame[of r1 ?r2]) simp_all
      show ?thesis
      proof (cases "walk (heap r) s e e [e] (if isjoint (heap r e) then 1 else 0)")
        case None
        with gw show ?thesis unfolding get_path_walk_def h1 by simp
      next
        case (Some y)
        show ?thesis
        proof (cases y)
          case (Inl err)
          with gw Some have "r' = ?r2" unfolding get_path_walk_def h1 by simp
          with wf2 show ?thesis by simp
        next
          case (Inr pn)
          obtain p n where pn: "pn = (p, n)" by (cases pn)
          from walk_sound[OF Some] Inr pn obtain xs where xs: "chain (heap r) s e xs"
            "p = [e] @ tl xs" "n = (if isjoint (heap r e) then 1 else 0) + joint_count (heap r) (tl xs)"
            unfolding walk_post_def by auto
          have p: "p = xs" using xs(2) chain_Cons_tl[OF xs(1)] by simp
          have n: "n = joint_count (heap r) xs" using xs(3) joint_count_Cons_tl[OF xs(1)] by simp
          let ?v = "(rev xs, joint_count (heap r) xs, tool_or_eye tool)"
          from gw Some Inr pn p n have r': "r' = cache_store ?r2 ?sn ?en ?v"
            unfolding get_path_walk_def h1 by simp
          have fr2: "heap ?r2 = heap r" "links ?r2 = links r" "grippers ?r2 = grippers r"
            using ensure_inner_frame[of r1 ?sn] fr by simp_all
          have al: "all_links r' = all_links r"
            unfolding r' all_links_def using cache_store_frame[of ?r2 ?sn ?en ?v] fr2 by simp
          have hr: "heap r' = heap r"
            unfolding r' using cache_store_frame[of ?r2 ?sn ?en ?v] fr2 by simp
          have inj: "inj_on (\<lambda>l. name (heap r l)) (all_links r)"
            using wf by (simp add: wf_robot_def)
          have ok: "cache_ok r" using wf by (simp add: wf_robot_def)
          have lk: "cache_lookup r' a b =
                      (if a = ?sn \<and> b = ?en then Some ?v else cache_lookup r a b)" for a b
            unfolding r' cache_store_lookup ensure_inner_lookup cl by simp
          have "cache_ok r'"
            unfolding cache_ok_def al hr
          proof (intro ballI allI impI)
            fix s' e' p' n' t'
            assume m: "s' \<in> all_links r" "e' \<in> all_links r"
              and c: "cache_lookup r' (name (heap r s')) (name (heap r e')) = Some (p', n', t')"
            show "\<exists>ys. chain (heap r) s' e' ys \<and> p' = rev ys \<and> n' = joint_count (heap r) ys"
            proof (cases "name (heap r s') = ?sn \<and> name (heap r e') = ?en")
              case True
              with inj m mem have "s' = s" "e' = e" by (auto dest: inj_onD)
              moreover from c True have "p' = rev xs" "n' = joint_count (heap r) xs"
                unfolding lk by simp_all
              ultimately show ?thesis using xs(1) by blast
            next
              case False
              with c have "cache_lookup r (name (heap r s')) (name (heap r e')) = Some (p', n', t')"
                unfolding lk by (simp split: if_splits)
              with ok m show ?thesis unfolding cache_ok_def by blast
            qed
          qed
          moreover have "getlink r' = getlink r" "base_link r' = base_link r" "ee_links r' = ee_links r"
            unfolding r' using cache_store_frame[of ?r2 ?sn ?en ?v] ensure_inner_frame[of r1 ?sn] fr
            by simp_all
          ultimately show ?thesis using wf unfolding wf_robot_def al hr by simp
        qed
      qed
    qed
  qed
qed

text \<open>What a call returns on a cache hit and on a cache miss.\<close>

lemma get_path_fst_hit:
  assumes gl: "fst (get_limit_links r end' start) = Inr (e, s, tool)"
    and hit: "cache_lookup r (name (heap r s)) (name (heap r e)) = Some v"
  shows "map_option fst (get_path r end' start) = Some (Inr v)"
proof -
  obtain r1 where gl1: "get_limit_links r end' start = (Inr (e, s, tool), r1)"
    using gl by (cases "get_limit_links r end' start") simp
  have cl: "cache_lookup r1 = cache_lookup r"
    using get_limit_links_frame[OF gl1] by (intro cache_lookup_frame) simp
  show ?thesis unfolding get_path_unfold[OF gl1] cl hit by simp
qed

lemma get_path_fst_miss:
  assumes gl: "fst (get_limit_links r end' start) = Inr (e, s, tool)"
    and miss: "cache_lookup r (name (heap r s)) (name (heap r e)) = None"
    and ch: "chain (heap r) s e xs"
  shows "map_option fst (get_path r end' start) =
           Some (Inr (rev xs, joint_count (heap r) xs, tool_or_eye tool))"
proof -
  obtain r1 where gl1: "get_limit_links r end' start = (Inr (e, s, tool), r1)"
    using gl by (cases "get_limit_links r end' start") simp
  note fr = get_limit_links_frame[OF gl1]
  have cl: "cache_lookup r1 = cache_lookup r" using fr by (intro cache_lookup_frame) simp
  have ch1: "chain (heap r1) s e xs" using ch fr by simp
  show ?thesis
    unfolding get_path_unfold[OF gl1] cl miss get_path_walk_chain[OF ch1] using fr by simp
qed

text \<open>
  The cache is transparent for a repeated request: when a request that missed the cache
  succeeds, the same request again returns the same tuple, from the cache as well as from
  an emptied cache.
\<close>

lemma get_path_identical_request:
  assumes gl: "get_limit_links r end' start = (Inr (e, s, tool), r1)"
    and miss: "cache_lookup r (name (heap r s)) (name (heap r e)) = None"
    and g: "get_path r end' start = Some (Inr v, r')"
  shows "map_option fst (get_path r' end' start) = Some (Inr v) \<and>
         map_option fst (get_path (r'\<lparr>path_cache := Map.empty\<rparr>) end' start) = Some (Inr v)"
proof -
  note fr = get_limit_links_frame[OF gl]
  have cl: "cache_lookup r1 = cache_lookup r" using fr by (intro cache_lookup_frame) simp
  have h1: "heap r1 = heap r" using fr by simp
  let ?sn = "name (heap r s)" and ?en = "name (heap r e)"
  let ?r2 = "ensure_inner r1 ?sn"
  from g have gw: "get_path_walk r1 e s tool = Some (Inr v, r')"
    unfolding get_path_unfold[OF gl] cl miss by simp
  then obtain p n where w: "walk (heap r) s e e [e] (if isjoint (heap r e) then 1 else 0) = Some (Inr (p, n))"
    and v: "v = (rev p, n, tool_or_eye tool)" and r': "r' = cache_store ?r2 ?sn ?en v"
    unfolding get_path_walk_def h1 by (auto split: option.splits sum.splits prod.splits)
  from walk_sound[OF w] obtain xs where xs: "chain (heap r) s e xs" "p = [e] @ tl xs"
    "n = (if isjoint (heap r e) then 1 else 0) + joint_count (heap r) (tl xs)"
    unfolding walk_post_def by auto
  have p: "p = xs" using xs(2) chain_Cons_tl[OF xs(1)] by simp
  have n: "n = joint_count (heap r) xs" using xs(3) joint_count_Cons_tl[OF xs(1)] by simp
  have fr': "heap r' = heap r" "grippers r' = grippers r" "ee_links r' = ee_links r"
    "base_link r' = base_link r" "getlink r' = getlink r"
    unfolding r' using cache_store_frame[of ?r2 ?sn ?en v] ensure_inner_frame[of r1 ?sn] fr
    by simp_all
  have gl': "fst (get_limit_links r' end' start) = Inr (e, s, tool)"
    using limits_same_fields[OF fr'(2,3,4,5), of end' start] gl by simp
  have hit: "cache_lookup r' (name (heap r' s)) (name (heap r' e)) = Some v"
    unfolding fr'(1) unfolding r' cache_store_lookup by simp
  have A: "map_option fst (get_path r' end' start) = Some (Inr v)"
    by (rule get_path_fst_hit[OF gl' hit])
  let ?r0 = "r'\<lparr>path_cache := Map.empty\<rparr>"
  have gl0: "fst (get_limit_links ?r0 end' start) = Inr (e, s, tool)"
    unfolding limits_with_cache using gl' by simp
  have miss0: "cache_lookup ?r0 (name (heap ?r0 s)) (name (heap ?r0 e)) = None"
    by (simp add: cache_lookup_def)
  have ch0: "chain (heap ?r0) s e xs" using xs(1) fr'(1) by simp
  have "map_option fst (get_path ?r0 end' start) =
          Some (Inr (rev xs, joint_count (heap ?r0) xs, tool_or_eye tool))"
    by (rule get_path_fst_miss[OF gl0 miss0 ch0])
  then have B: "map_option fst (get_path ?r0 end' start) = Some (Inr v)"
    using v p n fr'(1) by simp
  from A B show ?thesis by simp
qed

section \<open>The example robots satisfy the invariant\<close>

lemma getlink_spec_member: "getlink_spec h ls gs d = Inr l \<Longrightarrow> l \<in> set ls"
proof (cases d)
  case (DLink x)
  assume "getlink_spec h ls gs d = Inr l"
  with DLink show ?thesis by (simp add: getlink_spec_def split: if_splits)
next
  case (DName s)
  assume a: "getlink_spec h ls gs d = Inr l"
  with DName obtain zs where "filter (\<lambda>l. name (h l) = s) ls = l # zs"
    by (auto simp: getlink_spec_def split: list.splits)
  then have "l \<in> set (filter (\<lambda>l. name (h l) = s) ls)" by simp
  then show ?thesis by simp
next
  case (DGripper i)
  assume "getlink_spec h ls gs d = Inr l"
  with DGripper show ?thesis by (auto simp: getlink_spec_def split: list.splits if_splits)
qed

lemma all_links_fresh:
  "all_links (fresh_robot h ls gs ees b) = set (ls @ concat (map glinks gs))"
  by (auto simp: all_links_def fresh_robot_def)

lemma cache_ok_empty: "path_cache r = Map.empty \<Longrightarrow> cache_ok r"
  by (simp add: cache_ok_def cache_lookup_def)

lemma wf_fresh:
  assumes "inj_on (\<lambda>l. name (h l)) (set (ls @ concat (map glinks gs)))"
    and "b \<in> set (ls @ concat (map glinks gs))"
    and "set ees \<subseteq> set (ls @ concat (map glinks gs))"
  shows "wf_robot (fresh_robot h ls gs ees b)"
proof -
  have "cache_ok (fresh_robot h ls gs ees b)"
    by (rule cache_ok_empty) (simp add: fresh_robot_def)
  moreover have "\<forall>d l. getlink (fresh_robot h ls gs ees b) d = Inr l \<longrightarrow>
                   l \<in> all_links (fresh_robot h ls gs ees b)"
    unfolding all_links_fresh by (auto simp: fresh_robot_def dest: getlink_spec_member)
  ultimately show ?thesis
    using assms unfolding wf_robot_def all_links_fresh by (simp add: fresh_robot_def)
qed

lemma wf_chain4: "wf_robot chain4"
  unfolding chain4_def by (rule wf_fresh) (simp_all add: inj_on_def chain4_heap_def)

lemma chain4_chain: "chain chain4_heap 0 3 [3, 2, 1, 0]"
  by (simp add: chain_Cons_iff chain4_heap_def)

lemma chain4_limits:
  "get_limit_links chain4 (Some (DName ''ee'')) None =
     (Inr (3, 0, None), chain4\<lparr>cache_start := Some None\<rparr>)"
  by (simp add: get_limit_links_def limit_end_def limit_start_def chain4_def fresh_robot_def
        getlink_spec_def chain4_heap_def)

lemma wf_fork: "wf_robot fork"
  unfolding fork_def by (rule wf_fresh) (simp_all add: inj_on_def fork_heap_def)

lemma fork_limits:
  "get_limit_links fork (Some (DName ''ee_2'')) (Some (DName ''ee_1'')) = (Inr (2, 1, None), fork)"
  by (simp add: get_limit_links_def limit_end_def limit_start_def fork_def fresh_robot_def
        getlink_spec_def fork_heap_def)

lemma fork_no_path: "no_path fork_heap 1 2"
proof -
  have "no_path fork_heap 1 0" by (rule no_path_root) (simp_all add: fork_heap_def)
  then show ?thesis by (rule no_path_up[rotated 2]) (simp_all add: fork_heap_def)
qed

lemma arm_fields:
  "heap arm = arm_heap" "links arm = [0, 1]"
  "grippers arm = [\<lparr>gid = 0, gname = ''hand'', glinks = [2], gtool = hand_tool\<rparr>]"
  "ee_links arm = [1]" "base_link arm = 0" "path_cache arm = Map.empty"
  by (simp_all add: arm_def fresh_robot_def)

lemma arm_names: "name (arm_heap 0) = ''base''" "name (arm_heap 2) = ''hand''"
  by (simp_all add: arm_heap_def)

lemma arm_getlink:
  "getlink arm (DName ''hand'') = Inr 2" "getlink arm (DLink 2) = Inr 2"
  "getlink arm (DGripper 0) = Inr 2"
  by (simp_all add: arm_def fresh_robot_def getlink_spec_def arm_heap_def)

lemma arm_chain: "chain arm_heap 0 2 [2, 1, 0]"
  by (simp add: chain_Cons_iff arm_heap_def)

lemma arm_joint_count: "joint_count arm_heap [2, 1, 0] = 1"
  by (simp add: joint_count_def arm_heap_def)

lemma hand_tool_not_eye: "hand_tool \<noteq> SE3_eye"
  by (simp add: hand_tool_def SE3_eye_def)

lemma arm_limits_name:
  "get_limit_links arm (Some (DName ''hand'')) None =
     (Inr (2, 0, Some hand_tool), arm\<lparr>cache_start := Some None\<rparr>)"
  by (simp add: get_limit_links_def limit_end_def limit_start_def arm_getlink arm_fields
        end_is_gripper_def)

lemma arm_limits_link:
  "get_limit_links arm (Some (DLink 2)) None =
     (Inr (2, 0, None), arm\<lparr>cache_start := Some None\<rparr>)"
  by (simp add: get_limit_links_def limit_end_def limit_start_def arm_getlink arm_fields
        end_is_gripper_def)

lemma arm_limits_gripper:
  "get_limit_links arm (Some (DGripper 0)) None =
     (Inr (2, 0, Some hand_tool), arm\<lparr>cache_start := Some None\<rparr>)"
  by (simp add: get_limit_links_def limit_end_def limit_start_def arm_getlink arm_fields
        end_is_gripper_def)

lemma arm_first_name:
  "get_path arm (Some (DName ''hand'')) None = Some (Inr ([0, 1, 2], 1, hand_tool), arm_after_name)"
proof -
  have ch: "chain (heap (arm\<lparr>cache_start := Some None\<rparr>)) 0 2 [2, 1, 0]"
    using arm_chain by (simp add: arm_fields)
  show ?thesis
    unfolding get_path_unfold[OF arm_limits_name] get_path_walk_chain[OF ch]
    by (simp add: cache_lookup_def arm_fields arm_names joint_count_def arm_heap_def
          tool_or_eye_def arm_after_name_def)
qed

lemma arm_first_link:
  "get_path arm (Some (DLink 2)) None = Some (Inr ([0, 1, 2], 1, SE3_eye), arm_after_link)"
proof -
  have ch: "chain (heap (arm\<lparr>cache_start := Some None\<rparr>)) 0 2 [2, 1, 0]"
    using arm_chain by (simp add: arm_fields)
  show ?thesis
    unfolding get_path_unfold[OF arm_limits_link] get_path_walk_chain[OF ch]
    by (simp add: cache_lookup_def arm_fields arm_names joint_count_def arm_heap_def
          tool_or_eye_def arm_after_link_def)
qed

lemma arm_after_fields:
  "heap arm_after_name = arm_heap" "heap arm_after_link = arm_heap"
  "cache_lookup arm_after_name ''base'' ''hand'' = Some ([0, 1, 2], 1, hand_tool)"
  "cache_lookup arm_after_link ''base'' ''hand'' = Some ([0, 1, 2], 1, SE3_eye)"
  by (simp_all add: arm_after_name_def arm_after_link_def cache_store_lookup
        cache_store_frame ensure_inner_frame arm_fields)

lemma arm_after_name_limits_link:
  "fst (get_limit_links arm_after_name (Some (DLink 2)) None) = Inr (2, 0, None)"
proof -
  have "fst (get_limit_links arm_after_name (Some (DLink 2)) None) =
        fst (get_limit_links arm (Some (DLink 2)) None)"
    by (rule limits_same_fields)
       (simp_all add: arm_after_name_def cache_store_frame ensure_inner_frame)
  then show ?thesis by (simp add: arm_limits_link)
qed

lemma arm_after_link_limits_gripper:
  "fst (get_limit_links arm_after_link (Some (DGripper 0)) None) = Inr (2, 0, Some hand_tool)"
proof -
  have "fst (get_limit_links arm_after_link (Some (DGripper 0)) None) =
        fst (get_limit_links arm (Some (DGripper 0)) None)"
    by (rule limits_same_fields)
       (simp_all add: arm_after_link_def cache_store_frame ensure_inner_frame)
  then show ?thesis by (simp add: arm_limits_gripper)
qed

section \<open>Properties of the velocity damper\<close>

lemma fadd_zero_right: "fadd w (Fin 0) = w"
  by (cases w) simp_all

lemma fadd_not_fin_left: "\<not> is_fin u \<Longrightarrow> \<not> is_fin (fadd u w)"
  by (cases u; cases w) simp_all

lemma fadd_not_fin_right: "\<not> is_fin w \<Longrightarrow> \<not> is_fin (fadd u w)"
  by (cases u; cases w) simp_all

lemma fscale_not_fin: "\<not> is_fin u \<Longrightarrow> \<not> is_fin (fscale u b)"
  by (cases u) simp_all

lemma fdiv_zero_not_fin: "\<not> is_fin (fdiv x 0)"
  by (simp add: fdiv_def)

lemma fdiv_fin: "d \<noteq> 0 \<Longrightarrow> fdiv x d = Fin (x / d)"
  by (simp add: fdiv_def)

lemma row_times_total:
  "\<forall>c \<in> set cols. length c = length u \<Longrightarrow>
   \<exists>xs. row_times u cols = Inr xs \<and> length xs = length cols"
  by (induction cols) (auto simp: dot_def)

lemma length_norm_h: "length (norm_h wTlp wTcp d) = 6"
  by (cases wTlp; cases wTcp) (simp add: norm_h_def separation_def)

text \<open>The velocity term: the separation direction dotted into the velocity of the target.\<close>

lemma dot_norm_h:
  "dot (norm_h (a, b, c) (x, y, z) d) [v0, v1, v2, v3, v4, v5] =
     Inr (fadd (fscale (fdiv (x - a) d) v0)
            (fadd (fscale (fdiv (y - b) d) v1) (fscale (fdiv (z - c) d) v2)))"
  by (simp add: dot_def norm_h_def separation_def fadd_zero_right)

lemma indiv_calculation_total:
  assumes "di \<noteq> ds \<or> numpy_distance env" and "length (shape_v env) = 6"
    and "\<forall>col \<in> set (jacobe env q start link k). length col = 6"
    and "length (jacobe env q start link k) \<le> n"
  shows "\<exists>res. indiv_calculation env start n di ds xi link k q = Inr res"
proof (cases "closest_point env k di")
  case None
  then show ?thesis by (simp add: indiv_calculation_def)
next
  case (Some t)
  obtain d wTlp wTcp where t: "t = (d, wTlp, wTcp)" by (cases t)
  from assms(3) have "\<forall>col \<in> set (jacobe env q start link k). length col = length (norm_h wTlp wTcp d)"
    by (simp add: length_norm_h)
  from row_times_total[OF this] obtain xs where
    xs: "row_times (norm_h wTlp wTcp d) (jacobe env q start link k) = Inr xs"
        "length xs = length (jacobe env q start link k)" by blast
  have "\<exists>dp. dot (norm_h wTlp wTcp d) (shape_v env) = Inr dp"
    by (simp add: dot_def length_norm_h assms(2))
  then obtain dp where dp: "dot (norm_h wTlp wTcp d) (shape_v env) = Inr dp" by blast
  show ?thesis
    unfolding indiv_calculation_def Some t using assms(1,4) xs by (simp add: dp)
qed

lemma indiv_calculation_cases:
  assumes "indiv_calculation env start n di ds xi link c q = Inr (a, b)"
  shows "(closest_point env c di = None \<and> a = None \<and> b = None) \<or>
         (closest_point env c di \<noteq> None \<and> (\<exists>row x. a = Some [row] \<and> b = Some [x]))"
  using assms unfolding indiv_calculation_def
  by (auto split: option.splits prod.splits if_splits sum.splits)

lemma indiv_calculation_None:
  "closest_point env c di = None \<Longrightarrow>
   indiv_calculation env start n di ds xi link c q = Inr (None, None)"
  by (simp add: indiv_calculation_def)

lemma stack_none: "stack acc (None, None) = acc"
  by (cases acc) (simp add: stack_def)

lemma stack_row:
  "stack (stacked A, stacked b) (Some [row], Some [x]) = (stacked (A @ [row]), stacked (b @ [x]))"
  by (simp add: stack_def stacked_def)

lemma rows_of_append:
  "rows_of env start n di ds xi q (ps @ qs) =
     (fst (rows_of env start n di ds xi q ps) @ fst (rows_of env start n di ds xi q qs),
      snd (rows_of env start n di ds xi q ps) @ snd (rows_of env start n di ds xi q qs))"
  by (induction ps) (auto split: sum.splits option.splits prod.splits)

lemma damper_shapes_rows:
  assumes "\<forall>c \<in> set cs. \<exists>res. indiv_calculation env start n di ds xi link c q = Inr res"
  shows "damper_shapes env start n di ds xi q link cs (stacked A, stacked b) =
           Inr (stacked (A @ fst (rows_of env start n di ds xi q (map (Pair link) cs))),
                stacked (b @ snd (rows_of env start n di ds xi q (map (Pair link) cs))))"
  using assms
proof (induction cs arbitrary: A b)
  case Nil
  then show ?case by simp
next
  case (Cons c cs)
  from Cons.prems obtain a0 b0 where r: "indiv_calculation env start n di ds xi link c q = Inr (a0, b0)"
    by fastforce
  from Cons.prems have rest: "\<forall>c \<in> set cs. \<exists>res. indiv_calculation env start n di ds xi link c q = Inr res"
    by simp
  from indiv_calculation_cases[OF r] show ?case
  proof
    assume "closest_point env c di = None \<and> a0 = None \<and> b0 = None"
    then show ?thesis using r Cons.IH[OF rest, of A b] by (simp add: stack_none)
  next
    assume "closest_point env c di \<noteq> None \<and> (\<exists>row x. a0 = Some [row] \<and> b0 = Some [x])"
    then obtain row x where ab: "a0 = Some [row]" "b0 = Some [x]" by blast
    show ?thesis using r ab Cons.IH[OF rest, of "A @ [row]" "b @ [x]"]
      by (simp add: stack_row)
  qed
qed

lemma damper_links_rows:
  assumes "pairs h collision_list path j = Some ps"
    and "\<forall>p \<in> set ps. \<exists>res. indiv_calculation env start n di ds xi (fst p) (snd p) q = Inr res"
  shows "damper_links env h collision_list start n di ds xi q path j (stacked A, stacked b) =
           Inr (stacked (A @ fst (rows_of env start n di ds xi q ps)),
                stacked (b @ snd (rows_of env start n di ds xi q ps)))"
  using assms
proof (induction path arbitrary: j ps A b)
  case Nil
  then show ?case by simp
next
  case (Cons link ls)
  let ?j = "if isjoint (h link) then j + 1 else j"
  from Cons.prems(1) obtain cols qs where cols: "col_list h collision_list link ?j = Inr cols"
    and qs: "pairs h collision_list ls ?j = Some qs" and ps: "ps = map (Pair link) cols @ qs"
    by (auto simp: Let_def split: sum.splits option.splits)
  have ok1: "\<forall>c \<in> set cols. \<exists>res. indiv_calculation env start n di ds xi link c q = Inr res"
  proof
    fix c assume "c \<in> set cols"
    then have "(link, c) \<in> set ps" using ps by auto
    with Cons.prems(2) show "\<exists>res. indiv_calculation env start n di ds xi link c q = Inr res"
      by fastforce
  qed
  have ok2: "\<forall>p \<in> set qs. \<exists>res. indiv_calculation env start n di ds xi (fst p) (snd p) q = Inr res"
    using Cons.prems(2) ps by simp
  show ?case
    using cols damper_shapes_rows[OF ok1, of A b] Cons.IH[OF qs ok2]
    by (simp add: Let_def ps rows_of_append)
qed

lemma interacts_pair: "interacts env di (l, c) = (closest_point env c di \<noteq> None)"
  by (simp add: interacts_def)

lemma rows_of_length:
  assumes "\<forall>p \<in> set ps. \<exists>res. indiv_calculation env start n di ds xi (fst p) (snd p) q = Inr res"
  shows "length (fst (rows_of env start n di ds xi q ps)) = length (filter (interacts env di) ps) \<and>
         length (snd (rows_of env start n di ds xi q ps)) = length (filter (interacts env di) ps)"
  using assms
proof (induction ps)
  case Nil
  then show ?case by simp
next
  case (Cons p ps)
  obtain l c where p: "p = (l, c)" by (cases p)
  from Cons.prems p obtain a0 b0 where r: "indiv_calculation env start n di ds xi l c q = Inr (a0, b0)"
    by fastforce
  from Cons have ih: "length (fst (rows_of env start n di ds xi q ps)) = length (filter (interacts env di) ps)"
     "length (snd (rows_of env start n di ds xi q ps)) = length (filter (interacts env di) ps)"
    by simp_all
  from indiv_calculation_cases[OF r] show ?case
  proof
    assume "closest_point env c di = None \<and> a0 = None \<and> b0 = None"
    then show ?thesis using r ih p by (simp add: interacts_pair)
  next
    assume a: "closest_point env c di \<noteq> None \<and> (\<exists>row x. a0 = Some [row] \<and> b0 = Some [x])"
    then obtain row x where ab: "a0 = Some [row]" "b0 = Some [x]" by blast
    show ?thesis using r ab ih p a by (simp add: interacts_pair)
  qed
qed

lemma pairs_default: "\<exists>ps. pairs h None path j = Some ps"
proof (induction path arbitrary: j)
  case Nil
  show ?case by simp
next
  case (Cons link ls)
  from Cons[of "if isjoint (h link) then j + 1 else j"] obtain qs
    where "pairs h None ls (if isjoint (h link) then j + 1 else j) = Some qs" by blast
  then show ?case by (simp add: col_list_def Let_def)
qed

lemma duo_fields:
  "heap duo = duo_heap" "links duo = [0, 1]" "grippers duo = []"
  "ee_links duo = [1]" "base_link duo = 0" "path_cache duo = Map.empty"
  by (simp_all add: duo_def fresh_robot_def)

lemma duo_getlink: "l < 2 \<Longrightarrow> getlink duo (DLink l) = Inr l"
  by (auto simp: duo_def fresh_robot_def getlink_spec_def)

lemma duo_gl: "get_limit_links duo None None = (Inr (1, 0, None), duo_limits)"
  by (simp add: get_limit_links_def limit_end_def limit_start_def duo_fields duo_limits_def)

lemma duo_limits_gl:
  "get_limit_links duo_limits (Some (DLink 1)) (Some (DLink 0)) = (Inr (1, 0, None), duo_limits)"
  by (simp add: get_limit_links_def limit_end_def limit_start_def duo_fields duo_getlink
        duo_limits_def)

lemma duo_gp:
  "get_path duo_limits (Some (DLink 1)) (Some (DLink 0)) =
     Some (Inr ([0, 1], 1, SE3_eye), duo_path)"
proof -
  have hp: "heap duo_limits = duo_heap" by (simp add: duo_limits_def duo_fields)
  have ch: "chain (heap duo_limits) 0 1 [1, 0]"
    unfolding hp by (simp add: chain_Cons_iff duo_heap_def)
  show ?thesis
    unfolding get_path_unfold[OF duo_limits_gl] get_path_walk_chain[OF ch]
    by (simp add: cache_lookup_def duo_limits_def duo_fields duo_heap_def joint_count_def
          tool_or_eye_def duo_path_def)
qed

lemma duo_pairs:
  "pairs (heap duo_path) None [0, 1] 0 = Some [(0, 0), (1, 1), (1, 2), (1, 3)]"
proof -
  have hp: "heap duo_path = duo_heap"
    by (simp add: duo_path_def cache_store_frame ensure_inner_frame duo_limits_def duo_fields)
  show ?thesis unfolding hp by (simp add: col_list_def duo_heap_def)
qed

section \<open>Evaluating \<^verbatim>\<open>rne\<close> on the robot with a fixed link between two joints\<close>

lemma upt2: "[0..<2] = [0, Suc 0]" by (simp add: upt_rec)

lemma mid_heap_simps:
  "isjoint (mid_heap A0 F A2 s0 s2 0)" "\<not> isjoint (mid_heap A0 F A2 s0 s2 (Suc 0))"
  "isjoint (mid_heap A0 F A2 s0 s2 (Suc (Suc 0)))"
  "parent (mid_heap A0 F A2 s0 s2 0) = None" "parent (mid_heap A0 F A2 s0 s2 (Suc 0)) = Some 0"
  "jindex (mid_heap A0 F A2 s0 s2 0) = Some 0"
  "link_A (mid_heap A0 F A2 s0 s2 0) = A0" "link_A (mid_heap A0 F A2 s0 s2 (Suc 0)) = (\<lambda>q. F)"
  "link_Ts (mid_heap A0 F A2 s0 s2 0) = None" "link_Ts (mid_heap A0 F A2 s0 s2 (Suc 0)) = Some F"
  "link_Ts (mid_heap A0 F A2 s0 s2 (Suc (Suc 0))) = None"
  "link_m (mid_heap A0 F A2 s0 s2 0) = 1" "link_m (mid_heap A0 F A2 s0 s2 (Suc (Suc 0))) = 2"
  "link_r (mid_heap A0 F A2 s0 s2 0) = [0, 0, 0]" "link_r (mid_heap A0 F A2 s0 s2 (Suc (Suc 0))) = [0, 0, 0]"
  "link_v_s (mid_heap A0 F A2 s0 s2 0) = Some s0" "link_v_s (mid_heap A0 F A2 s0 s2 (Suc (Suc 0))) = Some s2"
  by (simp_all add: mid_heap_def)

lemma mid_init:
  "rne_init ops (mid_heap A0 F A2 s0 s2) False [0, 1, 2]
     (0, se3_eye ops, replicate 2 (inertia0 ops), replicate 2 (se3_eye ops), []) =
   Inr (2, se3_eye ops,
        [inertia ops 1 [0, 0, 0], inertia ops 2 [0, 0, 0]],
        [se3_mul ops (se3_eye ops) (se3_eye ops),
         se3_mul ops (se3_mul ops (se3_eye ops) F) (se3_eye ops)],
        [s0, s2])"
  by (simp add: mid_heap_simps ebind_def upd_err_def SE3_of_def numeral_2_eq_2)

section \<open>Claim C1: the path returned is the reversed parent chain\<close>

text \<open>
  C1. Whenever \<open>start\<close> is an ancestor of \<open>end\<close> or \<open>end\<close> itself (the chain \<open>xs\<close> of
  parent references leads from \<open>end\<close> up to \<open>start\<close>), \<^verbatim>\<open>get_path\<close> returns a tuple whose path
  is that chain reversed into base-to-tip order and whose joint count is the number of joint
  links on it. This holds on a cache miss and on a cache hit, in every robot that satisfies
  the invariant.
\<close>

theorem get_path_returns_chain:
  assumes wf: "wf_robot r"
    and gl: "get_limit_links r end' start = (Inr (e, s, tool), r1)"
    and ch: "chain (heap r) s e xs"
  shows "\<exists>t r'. get_path r end' start =
           Some (Inr (rev xs, joint_count (heap r) xs, t), r')"
proof -
  note fr = get_limit_links_frame[OF gl]
  from get_limit_links_member[OF wf gl] have mem: "e \<in> all_links r" "s \<in> all_links r"
    by simp_all
  have cl: "cache_lookup r1 = cache_lookup r" using fr by (intro cache_lookup_frame) simp
  have ch1: "chain (heap r1) s e xs" using ch fr by simp
  show ?thesis
  proof (cases "cache_lookup r (name (heap r s)) (name (heap r e))")
    case None
    have "get_path r end' start = get_path_walk r1 e s tool"
      unfolding get_path_unfold[OF gl] cl None by simp
    then show ?thesis unfolding get_path_walk_chain[OF ch1] using fr by simp
  next
    case (Some v)
    obtain p n t where v: "v = (p, n, t)" by (cases v)
    from wf have "cache_ok r" by (simp add: wf_robot_def)
    with mem Some v obtain ys where ys: "chain (heap r) s e ys" "p = rev ys"
      "n = joint_count (heap r) ys"
      unfolding cache_ok_def by blast
    from chain_unique[OF ch ys(1)] have "ys = xs" by simp
    with ys Some v show ?thesis
      unfolding get_path_unfold[OF gl] cl by simp
  qed
qed

theorem get_path_returns_chain_witness:
  "wf_robot chain4 \<and>
   get_limit_links chain4 (Some (DName ''ee'')) None =
     (Inr (3, 0, None), chain4\<lparr>cache_start := Some None\<rparr>) \<and>
   chain (heap chain4) 0 3 [3, 2, 1, 0] \<and>
   (\<exists>t r'. get_path chain4 (Some (DName ''ee'')) None = Some (Inr ([0, 1, 2, 3], 3, t), r'))"
proof -
  have hp: "heap chain4 = chain4_heap" by (simp add: chain4_def fresh_robot_def)
  have ch: "chain (heap chain4) 0 3 [3, 2, 1, 0]" unfolding hp by (rule chain4_chain)
  have jc: "joint_count (heap chain4) [3, 2, 1, 0] = 3"
    unfolding hp by (simp add: joint_count_def chain4_heap_def)
  from get_path_returns_chain[OF wf_chain4 chain4_limits ch]
  show ?thesis using wf_chain4 chain4_limits ch jc by simp
qed

section \<open>Claim C2: the cache and the value returned\<close>

text \<open>
  C2. A second call with the same \<^verbatim>\<open>(start.name, end.name)\<close> returns the stored tuple, and
  the value is the one an uncached call would compute. The first half holds
  (\<open>get_path_fst_hit\<close>), and so does the second for a repeated request
  (\<open>get_path_identical_request\<close>); it does not when the two calls name the same end link
  in different ways. On the arm with a gripper, \<^verbatim>\<open>get_path(end="hand")\<close> stores the gripper's
  tool under \<^verbatim>\<open>("base", "hand")\<close>; a following \<^verbatim>\<open>get_path(end=hand_link)\<close> has the same key and
  returns that tuple, while the same call on the same robot with an empty cache returns the
  identity tool.
\<close>

theorem cache_hit_returns_other_tool:
  "get_path arm (Some (DName ''hand'')) None =
     Some (Inr ([0, 1, 2], 1, hand_tool), arm_after_name) \<and>
   map_option fst (get_path arm_after_name (Some (DLink 2)) None) =
     Some (Inr ([0, 1, 2], 1, hand_tool)) \<and>
   map_option fst (get_path (arm_after_name\<lparr>path_cache := Map.empty\<rparr>) (Some (DLink 2)) None) =
     Some (Inr ([0, 1, 2], 1, SE3_eye)) \<and>
   hand_tool \<noteq> SE3_eye"
proof -
  have hit: "map_option fst (get_path arm_after_name (Some (DLink 2)) None) =
               Some (Inr ([0, 1, 2], 1, hand_tool))"
    by (rule get_path_fst_hit[OF arm_after_name_limits_link])
       (simp add: arm_after_fields arm_names)
  let ?r = "arm_after_name\<lparr>path_cache := Map.empty\<rparr>"
  have gl: "fst (get_limit_links ?r (Some (DLink 2)) None) = Inr (2, 0, None)"
    unfolding limits_with_cache by (simp add: arm_after_name_limits_link)
  have ch: "chain (heap ?r) 0 2 [2, 1, 0]" using arm_chain by (simp add: arm_after_fields)
  have miss: "cache_lookup ?r (name (heap ?r 0)) (name (heap ?r 2)) = None"
    by (simp add: cache_lookup_def)
  have "map_option fst (get_path ?r (Some (DLink 2)) None) =
          Some (Inr (rev [2, 1, 0], joint_count (heap ?r) [2, 1, 0], tool_or_eye None))"
    by (rule get_path_fst_miss[OF gl miss ch])
  then have nocache: "map_option fst (get_path ?r (Some (DLink 2)) None) =
          Some (Inr ([0, 1, 2], 1, SE3_eye))"
    by (simp add: arm_after_fields joint_count_def arm_heap_def tool_or_eye_def)
  from arm_first_name hit nocache hand_tool_not_eye show ?thesis by simp
qed

section \<open>Claim C3: the ``no path'' error\<close>

text \<open>
  C3. For a request whose end points resolve to the links \<open>e\<close> and \<open>s\<close>, \<^verbatim>\<open>get_path\<close> raises
  the ``cannot find path'' error if and only if following parent references from \<open>e\<close> meets
  a link without parent before it meets \<open>s\<close>. Whenever it raises, the error is that one, the
  links, their attributes and the robot's link collections are as before, every cache lookup
  answers as before, and nothing is stored for the request.
\<close>

theorem get_path_no_path_iff:
  assumes wf: "wf_robot r"
    and gl: "get_limit_links r end' start = (Inr (e, s, tool), r1)"
  shows "((\<exists>r'. get_path r end' start =
              Some (Inl (no_path_error (name (heap r s)) (name (heap r e))), r'))
            \<longleftrightarrow> no_path (heap r) s e) \<and>
         (\<forall>err r'. get_path r end' start = Some (Inl err, r') \<longrightarrow>
            err = no_path_error (name (heap r s)) (name (heap r e)) \<and>
            heap r' = heap r \<and> links r' = links r \<and> grippers r' = grippers r \<and>
            ee_links r' = ee_links r \<and> base_link r' = base_link r \<and>
            (\<forall>a b. cache_lookup r' a b = cache_lookup r a b) \<and>
            cache_lookup r' (name (heap r s)) (name (heap r e)) = None)"
proof -
  note fr = get_limit_links_frame[OF gl]
  from get_limit_links_member[OF wf gl] have mem: "e \<in> all_links r" "s \<in> all_links r"
    by simp_all
  have cl: "cache_lookup r1 = cache_lookup r" using fr by (intro cache_lookup_frame) simp
  have h1: "heap r1 = heap r" using fr by simp
  let ?sn = "name (heap r s)" and ?en = "name (heap r e)"
  let ?w = "walk (heap r) s e e [e] (if isjoint (heap r e) then 1 else 0)"
  have fail: "err = no_path_error ?sn ?en \<and> no_path (heap r) s e \<and> r' = ensure_inner r1 ?sn \<and>
              cache_lookup r ?sn ?en = None"
    if g: "get_path r end' start = Some (Inl err, r')" for err r'
  proof (cases "cache_lookup r ?sn ?en")
    case (Some v)
    with g show ?thesis unfolding get_path_unfold[OF gl] cl by simp
  next
    case None
    with g have gw: "get_path_walk r1 e s tool = Some (Inl err, r')"
      unfolding get_path_unfold[OF gl] cl by simp
    then have w: "?w = Some (Inl err)" and r': "r' = ensure_inner r1 ?sn"
      unfolding get_path_walk_def h1 by (auto split: option.splits sum.splits)
    from walk_sound[OF w] have "no_path (heap r) s e" "err = no_path_error ?sn ?en"
      by (simp_all add: walk_post_def)
    with r' None show ?thesis by simp
  qed
  have raise: "get_path r end' start = Some (Inl (no_path_error ?sn ?en), ensure_inner r1 ?sn)"
    if np: "no_path (heap r) s e"
  proof (cases "cache_lookup r ?sn ?en")
    case (Some v)
    from cached_chain[OF wf mem Some] obtain xs where "chain (heap r) s e xs" by blast
    with np chain_no_path_excl show ?thesis by blast
  next
    case None
    have "?w = Some (Inl (no_path_error ?sn ?en))" using np by (rule walk_no_path)
    then have "get_path_walk r1 e s tool = Some (Inl (no_path_error ?sn ?en), ensure_inner r1 ?sn)"
      unfolding get_path_walk_def h1 by simp
    then show ?thesis unfolding get_path_unfold[OF gl] cl None by simp
  qed
  have iff: "(\<exists>r'. get_path r end' start = Some (Inl (no_path_error ?sn ?en), r'))
               \<longleftrightarrow> no_path (heap r) s e"
    using fail raise by blast
  have frame: "err = no_path_error ?sn ?en \<and>
            heap r' = heap r \<and> links r' = links r \<and> grippers r' = grippers r \<and>
            ee_links r' = ee_links r \<and> base_link r' = base_link r \<and>
            (\<forall>a b. cache_lookup r' a b = cache_lookup r a b) \<and>
            cache_lookup r' ?sn ?en = None"
    if g: "get_path r end' start = Some (Inl err, r')" for err r'
  proof -
    from fail[OF g] have e: "err = no_path_error ?sn ?en" and r': "r' = ensure_inner r1 ?sn"
      and miss: "cache_lookup r ?sn ?en = None" by simp_all
    have "\<forall>a b. cache_lookup r' a b = cache_lookup r a b"
      unfolding r' ensure_inner_lookup cl by simp
    with e miss show ?thesis unfolding r' using ensure_inner_frame[of r1 ?sn] fr by simp
  qed
  from iff frame show ?thesis by blast
qed

theorem get_path_no_path_iff_witness:
  "wf_robot fork \<and>
   get_limit_links fork (Some (DName ''ee_2'')) (Some (DName ''ee_1'')) = (Inr (2, 1, None), fork) \<and>
   no_path (heap fork) 1 2 \<and>
   (\<exists>r'. get_path fork (Some (DName ''ee_2'')) (Some (DName ''ee_1'')) =
           Some (Inl (ValueError ''cannot find path from ee_1 to ee_2''), r') \<and>
         heap r' = heap fork \<and> links r' = links fork \<and>
         cache_lookup r' ''ee_1'' ''ee_2'' = None)"
proof -
  have hp: "heap fork = fork_heap" by (simp add: fork_def fresh_robot_def)
  have np: "no_path (heap fork) 1 2" unfolding hp by (rule fork_no_path)
  have nm: "name (heap fork 1) = ''ee_1''" "name (heap fork 2) = ''ee_2''"
    unfolding hp by (simp_all add: fork_heap_def)
  have msg: "no_path_error ''ee_1'' ''ee_2'' = ValueError ''cannot find path from ee_1 to ee_2''"
    by (simp add: no_path_error_def)
  from get_path_no_path_iff[OF wf_fork fork_limits] np
  obtain r' where g: "get_path fork (Some (DName ''ee_2'')) (Some (DName ''ee_1'')) =
      Some (Inl (no_path_error (name (heap fork 1)) (name (heap fork 2))), r')"
    by blast
  from get_path_no_path_iff[OF wf_fork fork_limits] g
  have "heap r' = heap fork \<and> links r' = links fork \<and>
        cache_lookup r' (name (heap fork 1)) (name (heap fork 2)) = None"
    by blast
  with g wf_fork fork_limits np show ?thesis unfolding nm msg by blast
qed

section \<open>Claim C4: fixed links in the Newton-Euler recursion\<close>

text \<open>
  C4. The first loop does fold the transform of a fixed link into \<^verbatim>\<open>Xtree\<close> of the joint
  that follows (\<open>mid_init\<close>: \<^verbatim>\<open>Xtree[1]\<close> contains \<open>F\<close>). The forward recursion, however,
  reads \<^verbatim>\<open>self.links[j]\<close>, the \<open>j\<close>-th link and not the \<open>j\<close>-th joint, and never reads
  \<^verbatim>\<open>Xtree\<close>. On the robot \<^verbatim>\<open>j0\<close>, \<^verbatim>\<open>f1\<close> (fixed), \<^verbatim>\<open>j2\<close> the round for the joint index 1
  therefore takes the transform and the parent of the fixed link \<^verbatim>\<open>f1\<close>: the forces are
  those computed with \<open>X1 = F\<^sup>-\<^sup>1\<close>, and they depend neither on the transform \<open>A2\<close> of the
  second joint nor on its position \<open>q1\<close>.
\<close>

theorem rne_takes_fixed_link_for_second_joint:
  "rne ops (mid_heap A0 F A2 s0 s2) [0, 1, 2] 2 [q0, q1] [qd0, qd1] [qdd0, qdd1] False g =
     (let X0 = se3_inv ops (A0 q0); X1 = se3_inv ops F;
          I0 = inertia ops 1 [0, 0, 0]; I1 = inertia ops 2 [0, 0, 0];
          vJ0 = scale ops s0 qd0; vJ1 = scale ops s2 qd1;
          v0 = vJ0;
          a0 = vadd ops (xform_m ops X0 (vneg ops g)) (scale ops s0 qdd0);
          f0 = vadd ops (imul ops I0 a0) (crf ops v0 (imul ops I0 v0));
          v1 = vadd ops (xform_m ops X1 v0) vJ1;
          a1 = vadd ops (vadd ops (xform_m ops X1 a0) (scale ops s2 qdd1)) (crm ops v1 vJ1);
          f1 = vadd ops (imul ops I1 a1) (crf ops v1 (imul ops I1 v1))
      in Inr [Some (proj ops (vadd ops f0 (xform_f ops X1 f1)) s0), Some (proj ops f1 s2)]) \<and>
   rne ops (mid_heap A0 F A2 s0 s2) [0, 1, 2] 2 [q0, q1] [qd0, qd1] [qdd0, qdd1] False g =
   rne ops (mid_heap A0 F A2' s0 s2) [0, 1, 2] 2 [q0, q1'] [qd0, qd1] [qdd0, qdd1] False g"
  unfolding rne_def mid_init
  by (simp add: upt2 mid_heap_simps ebind_def upd_err_def nth_err_def numeral_2_eq_2
        rne_forward_step_def rne_backward_step_def parent_jindex_def Let_def)

section \<open>Claim C5: the bound term of one link/shape pair\<close>

text \<open>
  C5. For a pair whose \<^verbatim>\<open>closest_point\<close> query reports the distance \<open>d\<close> and the closest
  points \<open>(a, b, c)\<close> on the link's shape and \<open>(x, y, z)\<close> on the target, the bound is
  \<open>xi (d - ds) / (di - ds)\<close> plus the separation direction
  \<open>((x - a) / d, (y - b) / d, (z - c) / d)\<close> dotted into the velocity \<open>(v0, v1, v2)\<close> of the
  target; at \<open>d = ds\<close> it is \<open>0\<close> plus that projection. For \<open>d \<noteq> 0\<close> all of this is finite
  real arithmetic; at \<open>d = 0\<close> the direction is not a number and neither is the bound, and
  nothing is raised. The hypotheses say that \<open>di\<close> and \<open>ds\<close> differ and that the arrays have
  the shapes the method expects.
\<close>

theorem indiv_calculation_bound:
  fixes a b c x y z d v0 v1 v2 v3 v4 v5 :: real
  defines "P \<equiv> fadd (fscale (fdiv (x - a) d) v0)
                (fadd (fscale (fdiv (y - b) d) v1) (fscale (fdiv (z - c) d) v2))"
  assumes cp: "closest_point env k di = Some (d, (a, b, c), (x, y, z))"
    and dids: "di \<noteq> ds"
    and v: "shape_v env = [v0, v1, v2, v3, v4, v5]"
    and J6: "\<forall>col \<in> set (jacobe env q start link k). length col = 6"
    and Jn: "length (jacobe env q start link k) \<le> n"
  shows "\<exists>row. indiv_calculation env start n di ds xi link k q =
           Inr (Some [row], Some [fadd (Fin (xi * (d - ds) / (di - ds))) P]) \<and>
         (d = ds \<longrightarrow>
            indiv_calculation env start n di ds xi link k q =
              Inr (Some [row], Some [fadd (Fin 0) P])) \<and>
         (d \<noteq> 0 \<longrightarrow>
            indiv_calculation env start n di ds xi link k q =
              Inr (Some [row],
                   Some [Fin (xi * (d - ds) / (di - ds) +
                              ((x - a) / d * v0 + (y - b) / d * v1 + (z - c) / d * v2))])) \<and>
         (d = 0 \<longrightarrow> \<not> is_fin (fadd (Fin (xi * (d - ds) / (di - ds))) P))"
proof -
  from J6 have "\<forall>col \<in> set (jacobe env q start link k).
                  length col = length (norm_h (a, b, c) (x, y, z) d)"
    by (simp add: length_norm_h)
  from row_times_total[OF this] obtain xs where
    xs: "row_times (norm_h (a, b, c) (x, y, z) d) (jacobe env q start link k) = Inr xs"
        "length xs = length (jacobe env q start link k)" by blast
  have dp: "dot (norm_h (a, b, c) (x, y, z) d) (shape_v env) = Inr P"
    unfolding v P_def by (rule dot_norm_h)
  have val: "indiv_calculation env start n di ds xi link k q =
           Inr (Some [xs @ replicate (n - length xs) (Fin 0)],
                Some [fadd (Fin (xi * (d - ds) / (di - ds))) P])"
    unfolding indiv_calculation_def cp using dids Jn xs by (simp add: dp fdiv_fin)
  have fin: "P = Fin ((x - a) / d * v0 + (y - b) / d * v1 + (z - c) / d * v2)" if "d \<noteq> 0"
    unfolding P_def using that by (simp add: fdiv_fin)
  have nonfin: "\<not> is_fin (fadd (Fin (xi * (d - ds) / (di - ds))) P)" if "d = 0"
  proof -
    have "\<not> is_fin (fscale (fdiv (x - a) d) v0)"
      unfolding that by (intro fscale_not_fin fdiv_zero_not_fin)
    then have "\<not> is_fin P" unfolding P_def by (rule fadd_not_fin_left)
    then show ?thesis by (rule fadd_not_fin_right)
  qed
  show ?thesis
    using val fin nonfin by (intro exI[of _ "xs @ replicate (n - length xs) (Fin 0)"]) auto
qed

theorem indiv_calculation_bound_witness:
  "closest_point env1 0 (3/10) = Some (1/20, (1, 2, 3), (1 + 3/100, 2 + 4/100, 3)) \<and>
   shape_v env1 = [1, 2, 0, 0, 0, 0] \<and>
   jacobe env1 () 0 1 0 = [[0, 1, 0, 0, 0, 0]] \<and>
   indiv_calculation env1 0 2 (3/10) (1/20) 1 1 0 () =
     Inr (Some [[Fin (4/5), Fin 0]], Some [Fin (0 + 11/5)]) \<and>
   indiv_calculation env1 0 2 (3/10) (1/40) 1 1 0 () =
     Inr (Some [[Fin (4/5), Fin 0]], Some [Fin (1/11 + 11/5)]) \<and>
   indiv_calculation env1 0 2 (3/10) (1/20) 1 1 2 () =
     Inr (Some [[NaN, Fin 0]], Some [NaN])"
proof -
  have cp: "closest_point env1 0 (3/10) = Some (1/20, (1, 2, 3), (1 + 3/100, 2 + 4/100, 3))"
    by (simp add: env1_def)
  have v: "shape_v env1 = [1, 2, 0, 0, 0, 0]" by (simp add: env1_def)
  have J: "jacobe env1 () 0 1 0 = [[0, 1, 0, 0, 0, 0]]" by (simp add: env1_def)
  have J6: "\<forall>col \<in> set (jacobe env1 () 0 1 0). length col = 6" by (simp add: env1_def)
  have Jn: "length (jacobe env1 () 0 1 0) \<le> 2" by (simp add: env1_def)
  have row: "indiv_calculation env1 0 2 (3/10) ds 1 1 0 () = Inr (Some [r], b) \<Longrightarrow>
             r = [Fin (4/5), Fin 0]" for ds r b
    by (auto simp: indiv_calculation_def env1_def norm_h_def separation_def dot_def fdiv_def
             numeral_2_eq_2 split: if_splits)
  from indiv_calculation_bound[OF cp _ v J6 Jn, of "1/20" 1]
  obtain r1 where A: "indiv_calculation env1 0 2 (3/10) (1/20) 1 1 0 () =
       Inr (Some [r1], Some [Fin (1 * (1/20 - 1/20) / (3/10 - 1/20) +
                              ((1 + 3/100 - 1) / (1/20) * 1 + (2 + 4/100 - 2) / (1/20) * 2 +
                               (3 - 3) / (1/20) * 0))])"
    by auto
  from indiv_calculation_bound[OF cp _ v J6 Jn, of "1/40" 1]
  obtain r2 where B: "indiv_calculation env1 0 2 (3/10) (1/40) 1 1 0 () =
       Inr (Some [r2], Some [Fin (1 * (1/20 - 1/40) / (3/10 - 1/40) +
                              ((1 + 3/100 - 1) / (1/20) * 1 + (2 + 4/100 - 2) / (1/20) * 2 +
                               (3 - 3) / (1/20) * 0))])"
    by auto
  have C: "indiv_calculation env1 0 2 (3/10) (1/20) 1 1 2 () =
     Inr (Some [[NaN, Fin 0]], Some [NaN])"
    by (simp add: indiv_calculation_def env1_def norm_h_def separation_def dot_def fdiv_def
          numeral_2_eq_2)
  from A row[OF A] have A': "indiv_calculation env1 0 2 (3/10) (1/20) 1 1 0 () =
     Inr (Some [[Fin (4/5), Fin 0]], Some [Fin (0 + 11/5)])" by simp
  from B row[OF B] have B': "indiv_calculation env1 0 2 (3/10) (1/40) 1 1 0 () =
     Inr (Some [[Fin (4/5), Fin 0]], Some [Fin (1/11 + 11/5)])" by simp
  from cp v J A' B' C show ?thesis by blast
qed

section \<open>Claim C6: automatic joint indices\<close>

text \<open>
  C6. Construction from links without joint indices is to number the joints 0, 1, 2, ...
  in depth-first order. The constructor does not: whatever \<^verbatim>\<open>Robot.__init__\<close> does with
  the empty list it receives, the links are as the caller made them. For the four links of
  the class documentation the three joints still have no index after construction, and
  the superclass constructor has been given no link.
\<close>

theorem init_leaves_joints_unindexed:
  "BaseERobot_init Robot_init new_links_heap [0, 1, 2, 3] None True kwargs =
     (Robot_init init_attrs [] kwargs, new_links_heap) \<and>
   map (\<lambda>l. (isjoint (snd (BaseERobot_init Robot_init new_links_heap [0, 1, 2, 3] None True
                              kwargs) l),
              jindex (snd (BaseERobot_init Robot_init new_links_heap [0, 1, 2, 3] None True
                             kwargs) l)))
       [0, 1, 2, 3] =
     [(True, None), (True, None), (True, None), (False, None)]"
  by (simp add: BaseERobot_init_def new_links_heap_def)

section \<open>Claim C7: no active constraint, or the stacked rows\<close>

text \<open>
  C7. Let the end points resolve, the path between them resolve, and \<open>ps\<close> be the link/shape
  pairs along the path. If \<^verbatim>\<open>closest_point\<close> reports no interaction for every pair, the
  method returns \<^verbatim>\<open>(None, None)\<close> and raises nothing. If at least one pair interacts and
  no individual calculation raises, it returns the rows and the bounds of all interacting
  pairs, stacked in visiting order: as many rows as there are interacting pairs. A pair at
  distance 0 interacts and raises nothing; its row is stacked like any other. An
  individual calculation raises only on arrays of the wrong shape, or at \<open>di = ds\<close> when
  the distance is a Python float (\<open>indiv_calculation_total\<close>). With the default \<^verbatim>\<open>collision_list=None\<close> the pairs always exist
  (\<open>pairs_default\<close>).
\<close>

theorem link_collision_damper_stacks:
  assumes gl: "get_limit_links r end' start = (Inr (e, s, t), r1)"
    and gp: "get_path r1 (Some (DLink e)) (Some (DLink s)) = Some (Inr (path, n, t'), r2)"
    and ps: "pairs (heap r2) collision_list path 0 = Some ps"
  shows "((\<forall>p \<in> set ps. \<not> interacts env di p) \<longrightarrow>
            link_collision_damper env r q di ds xi end' start collision_list =
              Some (Inr (None, None), r2)) \<and>
         ((\<exists>p \<in> set ps. interacts env di p) \<and>
          (\<forall>p \<in> set ps. \<exists>res. indiv_calculation env s n di ds xi (fst p) (snd p) q = Inr res) \<longrightarrow>
            link_collision_damper env r q di ds xi end' start collision_list =
              Some (Inr (Some (fst (rows_of env s n di ds xi q ps)),
                         Some (snd (rows_of env s n di ds xi q ps))), r2) \<and>
            length (fst (rows_of env s n di ds xi q ps)) = length (filter (interacts env di) ps) \<and>
            length (snd (rows_of env s n di ds xi q ps)) = length (filter (interacts env di) ps))"
proof -
  have unfold: "link_collision_damper env r q di ds xi end' start collision_list =
      Some (damper_links env (heap r2) collision_list s n di ds xi q path 0 (None, None), r2)"
    unfolding link_collision_damper_def gl by (simp add: gp)
  have st: "(None, None) = (stacked ([] :: fl list list), stacked ([] :: fl list))"
    by (simp add: stacked_def)
  have run: "damper_links env (heap r2) collision_list s n di ds xi q path 0 (None, None) =
      Inr (stacked (fst (rows_of env s n di ds xi q ps)), stacked (snd (rows_of env s n di ds xi q ps)))"
    if ok: "\<forall>p \<in> set ps. \<exists>res. indiv_calculation env s n di ds xi (fst p) (snd p) q = Inr res"
    unfolding st using damper_links_rows[OF ps ok, of "[]" "[]"] by simp
  have A: "link_collision_damper env r q di ds xi end' start collision_list =
              Some (Inr (None, None), r2)"
    if none: "\<forall>p \<in> set ps. \<not> interacts env di p"
  proof -
    have ok: "\<forall>p \<in> set ps. \<exists>res. indiv_calculation env s n di ds xi (fst p) (snd p) q = Inr res"
    proof
      fix p assume "p \<in> set ps"
      with none have "\<not> interacts env di p" by blast
      then have "closest_point env (snd p) di = None" unfolding interacts_def by blast
      then show "\<exists>res. indiv_calculation env s n di ds xi (fst p) (snd p) q = Inr res"
        by (simp add: indiv_calculation_None)
    qed
    from none have "filter (interacts env di) ps = []" by (simp add: filter_empty_conv)
    with rows_of_length[OF ok] have "fst (rows_of env s n di ds xi q ps) = []"
      "snd (rows_of env s n di ds xi q ps) = []" by simp_all
    with run[OF ok] show ?thesis unfolding unfold by (simp add: stacked_def)
  qed
  have B: "link_collision_damper env r q di ds xi end' start collision_list =
              Some (Inr (Some (fst (rows_of env s n di ds xi q ps)),
                         Some (snd (rows_of env s n di ds xi q ps))), r2) \<and>
            length (fst (rows_of env s n di ds xi q ps)) = length (filter (interacts env di) ps) \<and>
            length (snd (rows_of env s n di ds xi q ps)) = length (filter (interacts env di) ps)"
    if some: "\<exists>p \<in> set ps. interacts env di p"
      and ok: "\<forall>p \<in> set ps. \<exists>res. indiv_calculation env s n di ds xi (fst p) (snd p) q = Inr res"
  proof -
    from some have "filter (interacts env di) ps \<noteq> []" by (simp add: filter_empty_conv)
    with rows_of_length[OF ok] have ne: "fst (rows_of env s n di ds xi q ps) \<noteq> []"
      "snd (rows_of env s n di ds xi q ps) \<noteq> []" by auto
    with run[OF ok] rows_of_length[OF ok] show ?thesis unfolding unfold by (simp add: stacked_def)
  qed
  from A B show ?thesis by blast
qed

theorem link_collision_damper_stacks_witness:
  "get_limit_links duo None None = (Inr (1, 0, None), duo_limits) \<and>
   get_path duo_limits (Some (DLink 1)) (Some (DLink 0)) =
     Some (Inr ([0, 1], 1, SE3_eye), duo_path) \<and>
   pairs (heap duo_path) None [0, 1] 0 = Some [(0, 0), (1, 1), (1, 2), (1, 3)] \<and>
   \<not> interacts env1 (1/100) (0, 0) \<and> \<not> interacts env1 (1/100) (1, 1) \<and>
   \<not> interacts env1 (1/100) (1, 2) \<and> \<not> interacts env1 (1/100) (1, 3) \<and>
   link_collision_damper env1 duo () (1/100) (1/200) 1 None None None =
     Some (Inr (None, None), duo_path) \<and>
   interacts env1 (3/10) (0, 0) \<and> \<not> interacts env1 (3/10) (1, 1) \<and>
   interacts env1 (3/10) (1, 2) \<and> interacts env1 (3/10) (1, 3) \<and>
   indiv_calculation env1 0 1 (3/10) (1/20) 1 0 0 () =
     Inr (Some [[Fin (4/5)]], Some [Fin (11/5)]) \<and>
   indiv_calculation env1 0 1 (3/10) (1/20) 1 1 1 () = Inr (None, None) \<and>
   indiv_calculation env1 0 1 (3/10) (1/20) 1 1 2 () = Inr (Some [[NaN]], Some [NaN]) \<and>
   indiv_calculation env1 0 1 (3/10) (1/20) 1 1 3 () =
     Inr (Some [[Fin 0]], Some [Fin (1/5)]) \<and>
   link_collision_damper env1 duo () (3/10) (1/20) 1 None None None =
     Some (Inr (Some [[Fin (4/5)], [NaN], [Fin 0]], Some [Fin (11/5), NaN, Fin (1/5)]),
           duo_path)"
proof -
  have far0: "\<not> interacts env1 (1/100) (0, 0)" "\<not> interacts env1 (1/100) (1, 1)"
    "\<not> interacts env1 (1/100) (1, 2)" "\<not> interacts env1 (1/100) (1, 3)"
    by (simp_all add: interacts_pair env1_def)
  then have far: "\<forall>p \<in> set [(0, 0), (1, 1), (1, 2), (1, 3)]. \<not> interacts env1 (1/100) p"
    by simp
  have near0: "interacts env1 (3/10) (0, 0)" "\<not> interacts env1 (3/10) (1, 1)"
    "interacts env1 (3/10) (1, 2)" "interacts env1 (3/10) (1, 3)"
    by (simp_all add: interacts_pair env1_def)
  then have near: "\<exists>p \<in> set [(0, 0), (1, 1), (1, 2), (1, 3)]. interacts env1 (3/10) p"
    by simp
  have i0: "indiv_calculation env1 0 (Suc 0) (3/10) (1/20) 1 0 0 () =
     Inr (Some [[Fin (4/5)]], Some [Fin (11/5)])"
    by (simp add: indiv_calculation_def env1_def norm_h_def separation_def dot_def fdiv_def)
  have i1: "indiv_calculation env1 0 (Suc 0) (3/10) (1/20) 1 (Suc 0) (Suc 0) () = Inr (None, None)"
    by (simp add: indiv_calculation_def env1_def)
  have i2: "indiv_calculation env1 0 (Suc 0) (3/10) (1/20) 1 (Suc 0) 2 () =
     Inr (Some [[NaN]], Some [NaN])"
    by (simp add: indiv_calculation_def env1_def norm_h_def separation_def dot_def fdiv_def)
  have i3: "indiv_calculation env1 0 (Suc 0) (3/10) (1/20) 1 (Suc 0) 3 () =
     Inr (Some [[Fin 0]], Some [Fin (1/5)])"
    by (simp add: indiv_calculation_def env1_def norm_h_def separation_def dot_def fdiv_def)
  have ok: "\<forall>p \<in> set [(0, 0), (1, 1), (1, 2), (1, 3)].
      \<exists>res. indiv_calculation env1 0 1 (3/10) (1/20) 1 (fst p) (snd p) () = Inr res"
    by (simp add: i0 i1 i2 i3)
  have rows: "rows_of env1 0 1 (3/10) (1/20) 1 () [(0, 0), (1, 1), (1, 2), (1, 3)] =
      ([[Fin (4/5)], [NaN], [Fin 0]], [Fin (11/5), NaN, Fin (1/5)])"
    by (simp add: i0 i1 i2 i3)
  from link_collision_damper_stacks[OF duo_gl duo_gp duo_pairs, of env1 "1/100" "()" "1/200" 1] far
  have A: "link_collision_damper env1 duo () (1/100) (1/200) 1 None None None =
     Some (Inr (None, None), duo_path)" by blast
  from link_collision_damper_stacks[OF duo_gl duo_gp duo_pairs, of env1 "3/10" "()" "1/20" 1]
    near ok
  have "link_collision_damper env1 duo () (3/10) (1/20) 1 None None None =
     Some (Inr (Some (fst (rows_of env1 0 1 (3/10) (1/20) 1 () [(0, 0), (1, 1), (1, 2), (1, 3)])),
                Some (snd (rows_of env1 0 1 (3/10) (1/20) 1 () [(0, 0), (1, 1), (1, 2), (1, 3)]))),
           duo_path)"
    by blast
  then have B: "link_collision_damper env1 duo () (3/10) (1/20) 1 None None None =
     Some (Inr (Some [[Fin (4/5)], [NaN], [Fin 0]], Some [Fin (11/5), NaN, Fin (1/5)]),
           duo_path)"
    unfolding rows by simp
  have i0': "indiv_calculation env1 0 1 (3/10) (1/20) 1 0 0 () =
     Inr (Some [[Fin (4/5)]], Some [Fin (11/5)])" using i0 by simp
  have i1': "indiv_calculation env1 0 1 (3/10) (1/20) 1 1 1 () = Inr (None, None)"
    using i1 by simp
  have i2': "indiv_calculation env1 0 1 (3/10) (1/20) 1 1 2 () = Inr (Some [[NaN]], Some [NaN])"
    using i2 by simp
  have i3': "indiv_calculation env1 0 1 (3/10) (1/20) 1 1 3 () =
     Inr (Some [[Fin 0]], Some [Fin (1/5)])" using i3 by simp
  from duo_gl duo_gp duo_pairs far0 A near0 i0' i1' i2' i3' B show ?thesis by blast
qed

section \<open>Claim C8: removal of a gripper sub-tree\<close>

text \<open>
  C8. Construction with a gripper root is to move the root's sub-tree into a Gripper and
  to lower the joint count by the joints of that sub-tree. The constructor never reads
  \<^verbatim>\<open>gripper_links\<close>: for the arm with the gripper root \<^verbatim>\<open>hand\<close> the outcome is the one
  obtained without any gripper root, the superclass constructor receives neither the
  links nor the gripper root, and the joint count set before that call is 0, not the
  one joint (\<^verbatim>\<open>arm\<close>) that remains outside the gripper.
\<close>

theorem init_ignores_gripper_links:
  "BaseERobot_init Robot_init new_arm_heap [0, 1, 2, 3] (Some [2]) True kwargs =
     BaseERobot_init Robot_init new_arm_heap [0, 1, 2, 3] None True kwargs \<and>
   fst (BaseERobot_init Robot_init new_arm_heap [0, 1, 2, 3] (Some [2]) True kwargs) =
     Robot_init init_attrs [] kwargs \<and>
   attr_n init_attrs = 0 \<and>
   length (filter (\<lambda>l. isjoint (new_arm_heap l)) [0, 1]) = 1"
  by (simp add: BaseERobot_init_def init_attrs_def new_arm_heap_def)

section \<open>Claim C9: the tool offset of a Gripper end\<close>

text \<open>
  C9. With \<^verbatim>\<open>end\<close> given as a Gripper, the tuple carries that gripper's tool. On a cache miss
  it does (\<open>get_path_fst_miss\<close> with \<open>limit_end_gripper_tool\<close>, and \<open>limit_end_link_tool\<close> for the
  identity of a Link end). On the arm,
  after \<^verbatim>\<open>get_path(end=hand_link)\<close> has stored the identity tool under \<^verbatim>\<open>("base", "hand")\<close>,
  \<^verbatim>\<open>get_path(end=gripper)\<close> resolves the gripper's tool and then returns the stored tuple,
  whose tool is the identity and not the gripper's.
\<close>

theorem gripper_end_returns_cached_identity:
  "get_path arm (Some (DLink 2)) None =
     Some (Inr ([0, 1, 2], 1, SE3_eye), arm_after_link) \<and>
   fst (get_limit_links arm_after_link (Some (DGripper 0)) None) = Inr (2, 0, Some hand_tool) \<and>
   map_option fst (get_path arm_after_link (Some (DGripper 0)) None) =
     Some (Inr ([0, 1, 2], 1, SE3_eye)) \<and>
   gtool (grippers arm_after_link ! 0) = hand_tool \<and>
   hand_tool \<noteq> SE3_eye"
proof -
  have hit: "map_option fst (get_path arm_after_link (Some (DGripper 0)) None) =
               Some (Inr ([0, 1, 2], 1, SE3_eye))"
    by (rule get_path_fst_hit[OF arm_after_link_limits_gripper])
       (simp add: arm_after_fields arm_names)
  have g: "gtool (grippers arm_after_link ! 0) = hand_tool"
    by (simp add: arm_after_link_def cache_store_frame ensure_inner_frame arm_fields)
  from arm_first_link arm_after_link_limits_gripper hit g hand_tool_not_eye
  show ?thesis by simp
qed

section \<open>Claim C10: assigning to \<^verbatim>\<open>ERobot2.base\<close>\<close>

text \<open>
  C10. On an \<^verbatim>\<open>ERobot2\<close>: assigning a raw matrix that is not an \<^verbatim>\<open>SE2\<close> instance but passes \<^verbatim>\<open>SE2.isvalid\<close>
  raises nothing, leaves \<^verbatim>\<open>_base\<close> as it is and overwrites \<^verbatim>\<open>_tool\<close> with \<^verbatim>\<open>SE2(T)\<close>;
  assigning an \<^verbatim>\<open>SE2\<close> instance updates \<^verbatim>\<open>_base\<close>; assigning \<^verbatim>\<open>None\<close> stores \<^verbatim>\<open>None\<close>, after
  which the getter returns the identity.
\<close>

theorem base_setter_effects:
  "(isvalid A \<longrightarrow>
      (\<exists>r'. base_setter isvalid True r (ArgArray A) = Inr r' \<and>
            robot_base r' = robot_base r \<and> robot_tool r' = Some (SE2 A))) \<and>
   (\<exists>r'. base_setter isvalid True r (ArgSE2 X) = Inr r' \<and>
         robot_base r' = Some X \<and> robot_tool r' = robot_tool r) \<and>
   (\<exists>r'. base_setter isvalid True r ArgNone = Inr r' \<and>
         robot_base r' = None \<and> robot_tool r' = robot_tool r \<and>
         fst (base_getter r') = SE2_eye)"
  by (simp add: base_setter_def base_getter_def)

theorem base_setter_effects_witness:
  "is_hom2 [[0, -1, 2], [1, 0, 3], [0, 0, 1]] \<and>
   (\<exists>r'. base_setter is_hom2 True \<lparr>robot_base = Some SE2_eye, robot_tool = None\<rparr>
            (ArgArray [[0, -1, 2], [1, 0, 3], [0, 0, 1]]) = Inr r' \<and>
         robot_base r' = Some SE2_eye \<and>
         robot_tool r' = Some (SE2 [[0, -1, 2], [1, 0, 3], [0, 0, 1]]))"
proof -
  have v: "is_hom2 [[0, -1, 2], [1, 0, 3], [0, 0, 1]]" by (simp add: is_hom2_def)
  from base_setter_effects[of is_hom2 "[[0, -1, 2], [1, 0, 3], [0, 0, 1]]"
         "\<lparr>robot_base = Some SE2_eye, robot_tool = None\<rparr>" SE2_eye] v
  show ?thesis by simp
qed

end
